theory Spec2Isabelle
  imports Main "HOL-Library.Multiset"
begin

section \<open>Strings\<close>

text \<open>
  A Go \<^verbatim>\<open>string\<close> is a sequence of bytes; it is modelled as a \<^typ>\<open>string\<close>
  (a list of 8-bit characters).  The functions of this section are the ones of Go's
  \<^verbatim>\<open>strings\<close> package that the program calls.
\<close>

definition LF :: char where
  "LF = CHR 0x0A"

text \<open>\<^verbatim>\<open>strings.HasPrefix(s, prefix)\<close>.\<close>

fun HasPrefix :: "string \<Rightarrow> string \<Rightarrow> bool" where
  "HasPrefix s [] = True"
| "HasPrefix [] (p # ps) = False"
| "HasPrefix (c # cs) (p # ps) = (c = p \<and> HasPrefix cs ps)"

text \<open>\<^verbatim>\<open>strings.TrimPrefix(s, prefix)\<close>: \<^verbatim>\<open>s\<close> without the prefix when it has it,
  \<^verbatim>\<open>s\<close> itself otherwise.\<close>

definition TrimPrefix :: "string \<Rightarrow> string \<Rightarrow> string" where
  "TrimPrefix s p = (if HasPrefix s p then drop (length p) s else s)"

text \<open>\<^verbatim>\<open>strings.Split(s, "\n")\<close>: the pieces between the line feeds; the empty string
  gives one empty piece.\<close>

fun Split :: "string \<Rightarrow> string list" where
  "Split [] = [[]]"
| "Split (c # cs) =
     (if c = LF then [] # Split cs
      else (case Split cs of [] \<Rightarrow> [[c]] | l # ls \<Rightarrow> (c # l) # ls))"

text \<open>
  \<^verbatim>\<open>strings.TrimSpace\<close> removes leading and trailing white space as defined by Unicode.
  On the UTF-8 bytes of the string these are the six ASCII characters
  \<^verbatim>\<open>\t \n \v \f \r\<close> and space, and the encodings of U+0085, U+00A0, U+1680,
  U+2000..U+200A, U+2028, U+2029, U+202F, U+205F and U+3000.
  \<open>spaceWidth s\<close> is the number of bytes of the white-space character \<open>s\<close> starts with
  (0 when it starts with none).
\<close>

definition asciiSpace :: "char \<Rightarrow> bool" where
  "asciiSpace c = (c = CHR 0x09 \<or> c = CHR 0x0A \<or> c = CHR 0x0B \<or> c = CHR 0x0C
                   \<or> c = CHR 0x0D \<or> c = CHR 0x20)"

definition between :: "char \<Rightarrow> nat \<Rightarrow> nat \<Rightarrow> bool" where
  "between c lo hi = (lo \<le> of_char c \<and> of_char c \<le> hi)"

fun spaceWidth :: "string \<Rightarrow> nat" where
  "spaceWidth [] = 0"
| "spaceWidth [a] = (if asciiSpace a then 1 else 0)"
| "spaceWidth [a, b] =
     (if asciiSpace a then 1
      else if a = CHR 0xC2 \<and> (b = CHR 0x85 \<or> b = CHR 0xA0) then 2 else 0)"
| "spaceWidth (a # b # c # cs) =
     (if asciiSpace a then 1
      else if a = CHR 0xC2 \<and> (b = CHR 0x85 \<or> b = CHR 0xA0) then 2
      else if a = CHR 0xE1 \<and> b = CHR 0x9A \<and> c = CHR 0x80 then 3
      else if a = CHR 0xE2 \<and> b = CHR 0x80
                \<and> (between c 0x80 0x8A \<or> c = CHR 0xA8 \<or> c = CHR 0xA9 \<or> c = CHR 0xAF) then 3
      else if a = CHR 0xE2 \<and> b = CHR 0x81 \<and> c = CHR 0x9F then 3
      else if a = CHR 0xE3 \<and> b = CHR 0x80 \<and> c = CHR 0x80 then 3
      else 0)"

text \<open>The same for the white-space character a string ends with, read on the reversed
  string (\<open>spaceWidthRev (rev s)\<close>).\<close>

fun spaceWidthRev :: "string \<Rightarrow> nat" where
  "spaceWidthRev [] = 0"
| "spaceWidthRev [a] = (if asciiSpace a then 1 else 0)"
| "spaceWidthRev [b, a] =
     (if asciiSpace b then 1
      else if a = CHR 0xC2 \<and> (b = CHR 0x85 \<or> b = CHR 0xA0) then 2 else 0)"
| "spaceWidthRev (c # b # a # cs) =
     (if asciiSpace c then 1
      else if b = CHR 0xC2 \<and> (c = CHR 0x85 \<or> c = CHR 0xA0) then 2
      else if a = CHR 0xE1 \<and> b = CHR 0x9A \<and> c = CHR 0x80 then 3
      else if a = CHR 0xE2 \<and> b = CHR 0x80
                \<and> (between c 0x80 0x8A \<or> c = CHR 0xA8 \<or> c = CHR 0xA9 \<or> c = CHR 0xAF) then 3
      else if a = CHR 0xE2 \<and> b = CHR 0x81 \<and> c = CHR 0x9F then 3
      else if a = CHR 0xE3 \<and> b = CHR 0x80 \<and> c = CHR 0x80 then 3
      else 0)"

function TrimLeft :: "string \<Rightarrow> string" where
  "TrimLeft s = (if spaceWidth s = 0 then s else TrimLeft (drop (spaceWidth s) s))"
  by pat_completeness auto
termination
proof (relation "measure length")
  fix s :: string
  assume "spaceWidth s \<noteq> 0"
  moreover have "spaceWidth s \<le> length s"
    by (induction s rule: spaceWidth.induct) auto
  ultimately show "(drop (spaceWidth s) s, s) \<in> measure length" by simp
qed simp

function TrimRightRev :: "string \<Rightarrow> string" where
  "TrimRightRev s = (if spaceWidthRev s = 0 then s else TrimRightRev (drop (spaceWidthRev s) s))"
  by pat_completeness auto
termination
proof (relation "measure length")
  fix s :: string
  assume "spaceWidthRev s \<noteq> 0"
  moreover have "spaceWidthRev s \<le> length s"
    by (induction s rule: spaceWidthRev.induct) auto
  ultimately show "(drop (spaceWidthRev s) s, s) \<in> measure length" by simp
qed simp

definition TrimSpace :: "string \<Rightarrow> string" where
  "TrimSpace s = rev (TrimRightRev (rev (TrimLeft s)))"

section \<open>Data model\<close>

text \<open>
  A \<^verbatim>\<open>time.Time\<close> is modelled as the number of nanoseconds since the zero time
  (January 1, year 1, 00:00:00 UTC), so that \<^verbatim>\<open>IsZero\<close> is the test for 0 and
  \<^verbatim>\<open>After\<close> is \<open>>\<close>.
\<close>

type_synonym time = int

definition IsZero :: "time \<Rightarrow> bool" where
  "IsZero t = (t = 0)"

definition After :: "time \<Rightarrow> time \<Rightarrow> bool" where
  "After t u = (u < t)"

record Section =
  Name :: string
  SectionChanges :: "string list"

record ChangelogEntry =
  Version :: string
  ReleasedAt :: time
  Source :: string
  Sections :: "Section list"
  Changes :: "string list"

text \<open>Failures: the \<^verbatim>\<open>error\<close> values the adapters return, and the run-time panics
  of slicing and indexing.\<close>

datatype error =
    RequestError string
  | TransportError string
  | HTTPStatusError nat string
  | DecodeError string
  | ReadError string
  | Panic

section \<open>Release-body section parser\<close>

text \<open>
  The header pattern \<^verbatim>\<open>^#{1,3}\s+(.+)$\<close> of \<^verbatim>\<open>parseReleaseBody\<close>, as
  \<^verbatim>\<open>FindStringSubmatch\<close> applies it: the result is the text of capture group 1, or
  \<open>None\<close> when the string does not match.  \<^verbatim>\<open>\s\<close> is one of
  \<^verbatim>\<open>\t \n \f \r\<close> and space; \<^verbatim>\<open>.\<close> is any character but the line feed;
  \<^verbatim>\<open>$\<close> is the end of the text.  All repetitions are greedy, so the white space
  after the hashes goes to \<^verbatim>\<open>\s+\<close>, except for its last character when nothing
  else is left for the group.
\<close>

definition regexSpace :: "char \<Rightarrow> bool" where
  "regexSpace c = (c = CHR 0x09 \<or> c = CHR 0x0A \<or> c = CHR 0x0C \<or> c = CHR 0x0D \<or> c = CHR 0x20)"

definition headerRegex :: "string \<Rightarrow> string option" where
  "headerRegex s =
     (let k = length (takeWhile (\<lambda>c. c = CHR ''#'') s);
          t = drop k s;
          w = takeWhile regexSpace t;
          r = dropWhile regexSpace t
      in if k < 1 \<or> 3 < k then None
         else if w = [] then None
         else if r \<noteq> [] then (if LF \<in> set r then None else Some r)
         else if 2 \<le> length w \<and> last w \<noteq> LF then Some [last w]
         else None)"

text \<open>
  The state of the loop of \<^verbatim>\<open>parseReleaseBody\<close>: the sections saved so far, the
  ungrouped changes, and the section \<^verbatim>\<open>currentSection\<close> points to (\<open>None\<close> for
  \<^verbatim>\<open>nil\<close>).
\<close>

record bodyState =
  sections :: "Section list"
  ungroupedChanges :: "string list"
  currentSection :: "Section option"

text \<open>\<^verbatim>\<open>if currentSection != nil && len(currentSection.Changes) > 0
  { sections = append(sections, *currentSection) }\<close>\<close>

definition saveSection :: "bodyState \<Rightarrow> Section list" where
  "saveSection st =
     (case currentSection st of
        None \<Rightarrow> sections st
      | Some cur \<Rightarrow> if SectionChanges cur \<noteq> [] then sections st @ [cur] else sections st)"

text \<open>One iteration of the loop over the lines.\<close>

definition bodyLine :: "bodyState \<Rightarrow> string \<Rightarrow> bodyState" where
  "bodyLine st line =
     (let trimmed = TrimSpace line in
      case headerRegex trimmed of
        Some m \<Rightarrow>
          (let headerName = TrimSpace m in
           if headerName = ''What's Changed'' then st
           else st\<lparr>sections := saveSection st,
                   currentSection := Some \<lparr>Name = headerName, SectionChanges = []\<rparr>\<rparr>)
      | None \<Rightarrow>
          if HasPrefix trimmed ''- '' \<or> HasPrefix trimmed ''* '' then
            (let change = TrimPrefix (TrimPrefix trimmed ''- '') ''* '' in
             if change \<noteq> [] \<and> \<not> HasPrefix change ''@'' then
               (case currentSection st of
                  Some cur \<Rightarrow>
                    st\<lparr>currentSection := Some (cur\<lparr>SectionChanges := SectionChanges cur @ [change]\<rparr>)\<rparr>
                | None \<Rightarrow> st\<lparr>ungroupedChanges := ungroupedChanges st @ [change]\<rparr>)
             else st)
          else st)"

definition parseReleaseBody :: "string \<Rightarrow> Section list \<times> string list" where
  "parseReleaseBody body =
     (let st = foldl bodyLine
                 \<lparr>sections = [], ungroupedChanges = [], currentSection = None\<rparr>
                 (Split body)
      in (saveSection st, ungroupedChanges st))"

section \<open>Markdown changelog parser\<close>

text \<open>
  Run-time checks of Go: \<^verbatim>\<open>xs[i]\<close> and \<^verbatim>\<open>s[a:b]\<close> panic out of range.
\<close>

definition bindE :: "error + 'a \<Rightarrow> ('a \<Rightarrow> error + 'b) \<Rightarrow> error + 'b" where
  "bindE m f = (case m of Inl e \<Rightarrow> Inl e | Inr x \<Rightarrow> f x)"

definition index :: "'a list \<Rightarrow> int \<Rightarrow> error + 'a" where
  "index xs i = (if 0 \<le> i \<and> i < int (length xs) then Inr (xs ! nat i) else Inl Panic)"

definition slice :: "string \<Rightarrow> int \<Rightarrow> int \<Rightarrow> error + string" where
  "slice s a b =
     (if 0 \<le> a \<and> a \<le> b \<and> b \<le> int (length s)
      then Inr (take (nat (b - a)) (drop (nat a) s)) else Inl Panic)"

definition parseChanges :: "string \<Rightarrow> string list" where
  "parseChanges content =
     foldl (\<lambda>changes line.
              let trimmed = TrimSpace line in
              if HasPrefix trimmed ''- '' then changes @ [TrimPrefix trimmed ''- ''] else changes)
       [] (Split content)"

text \<open>
  The regular-expression engine is Go's library.  The parsers receive what
  \<^verbatim>\<open>FindAllStringSubmatchIndex(content, -1)\<close> returns for their pattern: one list of
  byte offsets per match, \<open>[start, end, start\<^sub>1, end\<^sub>1, \<dots>]\<close>, with the offsets
  of a group that took no part in the match equal to \<open>-1\<close>.

  \<open>contentEnd\<close> is the \<^verbatim>\<open>if i+1 < len(matches)\<close> statement of the three parsers.
\<close>

definition contentEnd :: "string \<Rightarrow> int list list \<Rightarrow> nat \<Rightarrow> error + int" where
  "contentEnd content matches i =
     (if i + 1 < length matches then index (matches ! (i + 1)) 0
      else Inr (int (length content)))"

text \<open>The body of the loop of \<^verbatim>\<open>parseMarkdownChangelog\<close> for the match number \<open>i\<close>.\<close>

definition markdownEntry :: "string \<Rightarrow> int list list \<Rightarrow> nat \<Rightarrow> error + ChangelogEntry" where
  "markdownEntry content matches i =
     (let match = matches ! i in
      bindE (index match 1) (\<lambda>versionEnd.
      bindE (index match 2) (\<lambda>a.
      bindE (index match 3) (\<lambda>b.
      bindE (slice content a b) (\<lambda>ver.
      bindE (contentEnd content matches i) (\<lambda>cEnd.
      bindE (slice content versionEnd cEnd) (\<lambda>sectionContent.
        Inr \<lparr>Version = ver, ReleasedAt = 0, Source = [], Sections = [],
             Changes = parseChanges sectionContent\<rparr>)))))))"

text \<open>The loop \<^verbatim>\<open>for i, match := range matches\<close>, appending one entry per match; a
  panic ends the run.\<close>

definition entriesLoop :: "(nat \<Rightarrow> error + ChangelogEntry) \<Rightarrow> nat \<Rightarrow> error + ChangelogEntry list" where
  "entriesLoop body n =
     foldl (\<lambda>acc i. bindE acc (\<lambda>entries. bindE (body i) (\<lambda>e. Inr (entries @ [e]))))
       (Inr []) [0..<n]"

definition parseMarkdownChangelog :: "string \<Rightarrow> int list list \<Rightarrow> error + ChangelogEntry list" where
  "parseMarkdownChangelog content matches =
     entriesLoop (markdownEntry content matches) (length matches)"

text \<open>
  \<^verbatim>\<open>FindAllStringSubmatch\<close> returns the texts at the offsets of
  \<^verbatim>\<open>FindAllStringSubmatchIndex\<close>: the library slices the string at each pair, and
  leaves the empty string for a group that took no part.
\<close>

fun submatch :: "string \<Rightarrow> int list \<Rightarrow> string list" where
  "submatch content (a # b # rest) =
     (if a < 0 then [] else take (nat (b - a)) (drop (nat a) content)) # submatch content rest"
| "submatch content rest = []"

text \<open>\<^verbatim>\<open>time.Parse\<close> is a parameter of the parsers (\<open>parseDate\<close> for the layout
  \<^verbatim>\<open>2006-01-02\<close>, \<open>parseRFC3339\<close> for \<^verbatim>\<open>time.RFC3339\<close>); the program drops its
  error and keeps the time, which is the zero time when the text does not parse.\<close>

definition optionalDateEntry ::
  "(string \<Rightarrow> time) \<Rightarrow> string \<Rightarrow> int list list \<Rightarrow> nat \<Rightarrow> error + ChangelogEntry" where
  "optionalDateEntry parseDate content matchIndexes i =
     (let match = submatch content (matchIndexes ! i) in
      bindE (index match 1) (\<lambda>ver.
      let releasedAt = (if 2 < length match \<and> match ! 2 \<noteq> [] then parseDate (match ! 2) else 0) in
      bindE (contentEnd content matchIndexes i) (\<lambda>cEnd.
      bindE (index (matchIndexes ! i) 1) (\<lambda>versionEnd.
      bindE (slice content versionEnd cEnd) (\<lambda>sectionContent.
        Inr \<lparr>Version = ver, ReleasedAt = releasedAt, Source = [], Sections = [],
             Changes = parseChanges sectionContent\<rparr>)))))"

definition parseMarkdownChangelogWithOptionalDate ::
  "(string \<Rightarrow> time) \<Rightarrow> string \<Rightarrow> int list list \<Rightarrow> error + ChangelogEntry list" where
  "parseMarkdownChangelogWithOptionalDate parseDate content matchIndexes =
     entriesLoop (optionalDateEntry parseDate content matchIndexes) (length matchIndexes)"



section \<open>Source adapters\<close>

text \<open>
  What the network answers is an input of the model.  \<open>httpResponse\<close> is the outcome of
  \<^verbatim>\<open>http.Get\<close>: a transport failure, or a status code, a status line and the result of
  reading the body.
\<close>

datatype httpResponse =
    GetFailed string
  | GetResponse nat string "string + string"

definition httpGet :: "httpResponse \<Rightarrow> error + string" where
  "httpGet resp =
     (case resp of
        GetFailed msg \<Rightarrow> Inl (TransportError msg)
      | GetResponse code status body \<Rightarrow>
          if code \<noteq> 200 then Inl (HTTPStatusError code status)
          else (case body of Inl msg \<Rightarrow> Inl (ReadError msg) | Inr text \<Rightarrow> Inr text))"

text \<open>
  \<open>'a apiResponse\<close> is the outcome of a request to the GitHub API: building the request
  fails, sending it fails, or there is a status code, a status line and the result of
  decoding the JSON body into a value of type \<open>'a\<close>.
\<close>

datatype 'a apiResponse =
    NewRequestFailed string
  | DoFailed string
  | ApiResponse nat string "string + 'a"


text \<open>Lines 986 and 987 of \<^verbatim>\<open>fetchGitHubReleases\<close> (233 and 234 in the older
  \<^verbatim>\<open>main.go\<close>): \<^verbatim>\<open>ver = strings.TrimPrefix(ver, "v")\<close>, then
  \<^verbatim>\<open>ver = strings.TrimPrefix(ver, "rust-v")\<close>.\<close>

definition normalizeVersion :: "string \<Rightarrow> string" where
  "normalizeVersion tag = TrimPrefix (TrimPrefix tag ''v'') ''rust-v''"



text \<open>The commits API answers with an array of commits; the model keeps the committer
  date of each.  Every failure gives the zero time.\<close>

definition fetchGitHubFileLastCommitDate ::
  "(string \<Rightarrow> time) \<Rightarrow> string list apiResponse \<Rightarrow> time" where
  "fetchGitHubFileLastCommitDate parseRFC3339 resp =
     (case resp of
        NewRequestFailed msg \<Rightarrow> 0
      | DoFailed msg \<Rightarrow> 0
      | ApiResponse code status decoded \<Rightarrow>
          if code \<noteq> 200 then 0
          else (case decoded of
                  Inl msg \<Rightarrow> 0
                | Inr commits \<Rightarrow>
                    (case commits of [] \<Rightarrow> 0 | date # rest \<Rightarrow> parseRFC3339 date)))"

text \<open>
  \<^verbatim>\<open>fetchClaudeChangelog\<close>.  Its inputs are the answer to the request for
  \<^verbatim>\<open>CHANGELOG.md\<close>, the matches of the version pattern in a text (\<open>findAll\<close>), and the
  answer the commits API gives if it is asked.  Its result says, besides what the Go
  function returns, whether the commits API was asked (\<open>askedCommits\<close>).

  \<open>setFirstReleasedAt\<close> is the assignment \<^verbatim>\<open>entries[0].ReleasedAt = commitDate\<close>.
\<close>

record claudeResult =
  returned :: "error + ChangelogEntry list"
  askedCommits :: bool

definition setFirstReleasedAt :: "ChangelogEntry list \<Rightarrow> time \<Rightarrow> ChangelogEntry list" where
  "setFirstReleasedAt entries t =
     (case entries of [] \<Rightarrow> [] | e # rest \<Rightarrow> e\<lparr>ReleasedAt := t\<rparr> # rest)"

definition fetchClaudeChangelog ::
  "(string \<Rightarrow> time) \<Rightarrow> (string \<Rightarrow> time) \<Rightarrow> (string \<Rightarrow> int list list) \<Rightarrow>
   httpResponse \<Rightarrow> string list apiResponse \<Rightarrow> claudeResult" where
  "fetchClaudeChangelog parseDate parseRFC3339 findAll resp commitsResp =
     (case httpGet resp of
        Inl err \<Rightarrow> \<lparr>returned = Inl err, askedCommits = False\<rparr>
      | Inr content \<Rightarrow>
          (case parseMarkdownChangelogWithOptionalDate parseDate content (findAll content) of
             Inl err \<Rightarrow> \<lparr>returned = Inl err, askedCommits = False\<rparr>
           | Inr entries \<Rightarrow>
               if entries \<noteq> [] \<and> IsZero (ReleasedAt (hd entries)) then
                 (let commitDate = fetchGitHubFileLastCommitDate parseRFC3339 commitsResp in
                  if \<not> IsZero commitDate
                  then \<lparr>returned = Inr (setFirstReleasedAt entries commitDate), askedCommits = True\<rparr>
                  else \<lparr>returned = Inr entries, askedCommits = True\<rparr>)
               else \<lparr>returned = Inr entries, askedCommits = False\<rparr>))"


section \<open>Durations and their formatting\<close>

text \<open>
  A \<^verbatim>\<open>time.Duration\<close> is a signed 64-bit count of nanoseconds: \<^verbatim>\<open>Time.Sub\<close>
  saturates at the least and the greatest duration, \<^verbatim>\<open>+=\<close> wraps around, and
  \<^verbatim>\<open>/\<close> rounds toward zero.
\<close>

type_synonym duration = int

definition minDuration :: duration where
  "minDuration = - (2 ^ 63)"

definition maxDuration :: duration where
  "maxDuration = 2 ^ 63 - 1"

definition Sub :: "time \<Rightarrow> time \<Rightarrow> duration" where
  "Sub t u = (if t - u < minDuration then minDuration
              else if maxDuration < t - u then maxDuration else t - u)"

definition wrap64 :: "int \<Rightarrow> int" where
  "wrap64 x = (x + 2 ^ 63) mod 2 ^ 64 - 2 ^ 63"

definition quot :: "int \<Rightarrow> int \<Rightarrow> int" where
  "quot a b = sgn a * sgn b * (\<bar>a\<bar> div \<bar>b\<bar>)"

definition Minute :: duration where
  "Minute = 60000000000"

definition Hour :: duration where
  "Hour = 3600000000000"

text \<open>
  \<^verbatim>\<open>int(d.Minutes())\<close> and \<^verbatim>\<open>int(d.Hours())\<close>.  Go computes
  \<^verbatim>\<open>float64(d / Hour) + float64(d % Hour) / (60 * 60 * 1e9)\<close> in \<^verbatim>\<open>float64\<close>
  arithmetic and \<^verbatim>\<open>int\<close> drops the fraction of the sum.  Both operations round
  their exact result to the nearest number with a mantissa of 53 bits, a tie to the even
  mantissa.

  The model works on fixed-point numbers: the integer \<open>x\<close> stands for \<open>x / 2\<^sup>1\<^sup>0\<^sup>0\<close>.
  \<open>roundFloat64 p q\<close> is the \<^verbatim>\<open>float64\<close> nearest to the quotient \<open>p / q\<close> of two
  integers, \<open>0 \<le> p\<close> and \<open>0 < q\<close>; this is exact float arithmetic as long as the
  quotient is 0 or at least \<open>2\<^sup>-\<^sup>4\<^sup>7\<close>, which holds for the quotients of the program (a
  remainder of at least one nanosecond by a unit of at most an hour).  The whole part of
  a duration is below \<open>2\<^sup>5\<^sup>3\<close>, so its conversion to \<^verbatim>\<open>float64\<close> is exact.  For a
  negative duration Go's quotient, remainder, rounding and \<^verbatim>\<open>int\<close> are the mirror
  images of those for its absolute value.
\<close>

function bitLength :: "int \<Rightarrow> nat" where
  "bitLength n = (if n \<le> 0 then 0 else Suc (bitLength (n div 2)))"
  by pat_completeness auto
termination
  by (relation "measure nat") auto

declare bitLength.simps [simp del]

definition roundEven :: "int \<Rightarrow> int \<Rightarrow> int" where
  "roundEven p q =
     (if 2 * (p mod q) < q then p div q
      else if q < 2 * (p mod q) then p div q + 1
      else if even (p div q) then p div q else p div q + 1)"

definition scale :: int where
  "scale = 2 ^ 100"

definition roundFloat64 :: "int \<Rightarrow> int \<Rightarrow> int" where
  "roundFloat64 p q =
     roundEven (p * scale) (q * 2 ^ (bitLength (p * scale div q) - 53))
       * 2 ^ (bitLength (p * scale div q) - 53)"

definition wholeUnits :: "int \<Rightarrow> int \<Rightarrow> int" where
  "wholeUnits a unit =
     roundFloat64 ((a div unit) * scale + roundFloat64 (a mod unit) unit) scale div scale"

definition Minutes :: "duration \<Rightarrow> int" where
  "Minutes d = sgn d * wholeUnits \<bar>d\<bar> Minute"

definition Hours :: "duration \<Rightarrow> int" where
  "Hours d = sgn d * wholeUnits \<bar>d\<bar> Hour"

text \<open>The verb \<^verbatim>\<open>%d\<close> of \<^verbatim>\<open>fmt.Sprintf\<close>.\<close>

fun showNat :: "nat \<Rightarrow> string" where
  "showNat n =
     (if n < 10 then [char_of (48 + n)]
      else showNat (n div 10) @ [char_of (48 + n mod 10)])"

definition showInt :: "int \<Rightarrow> string" where
  "showInt i = (if i < 0 then ''-'' @ showNat (nat (- i)) else showNat (nat i))"

text \<open>\<^verbatim>\<open>formatRelativeTime\<close>; \<open>now\<close> is the reading of the clock that
  \<^verbatim>\<open>time.Since\<close> makes.\<close>

definition formatRelativeTime :: "time \<Rightarrow> time \<Rightarrow> string" where
  "formatRelativeTime now t =
     (if IsZero t then ''-''
      else
        (let duration = Sub now t;
             minutes = Minutes duration;
             hours = Hours duration;
             days = quot hours 24;
             weeks = quot days 7;
             months = quot days 30
         in if minutes < 60 then showInt minutes @ ''m ago''
            else if hours < 24 then showInt hours @ ''h ago''
            else if days < 7 then showInt days @ ''d ago''
            else if weeks < 4 then showInt weeks @ ''w ago''
            else showInt months @ ''mo ago''))"

text \<open>
  \<^verbatim>\<open>calculateAvgReleaseFreq\<close>, in three parts: the loop that collects the entries with
  a date and stops at ten, the loop that adds the intervals, and the formatting of the
  average.
\<close>

fun collectValid :: "ChangelogEntry list \<Rightarrow> ChangelogEntry list \<Rightarrow> ChangelogEntry list" where
  "collectValid validEntries [] = validEntries"
| "collectValid validEntries (e # es) =
     (if \<not> IsZero (ReleasedAt e) then
        (if 10 \<le> length (validEntries @ [e]) then validEntries @ [e]
         else collectValid (validEntries @ [e]) es)
      else
        (if 10 \<le> length validEntries then validEntries
         else collectValid validEntries es))"

fun totalDuration :: "duration \<Rightarrow> ChangelogEntry list \<Rightarrow> duration" where
  "totalDuration tot (a # b # rest) =
     totalDuration (wrap64 (tot + Sub (ReleasedAt a) (ReleasedAt b))) (b # rest)"
| "totalDuration tot rest = tot"

definition formatFreq :: "duration \<Rightarrow> string" where
  "formatFreq avgDuration =
     (let hours = Hours avgDuration;
          days = quot hours 24;
          weeks = quot days 7;
          months = quot days 30
      in if days < 1 then ''~'' @ showInt hours @ ''h''
         else if days < 7 then ''~'' @ showInt days @ ''d''
         else if weeks < 4 then ''~'' @ showInt weeks @ ''w''
         else ''~'' @ showInt months @ ''mo'')"

definition calculateAvgReleaseFreq :: "ChangelogEntry list \<Rightarrow> string" where
  "calculateAvgReleaseFreq entries =
     (let validEntries = collectValid [] entries in
      if length validEntries < 2 then ''-''
      else formatFreq (quot (totalDuration 0 validEntries) (int (length validEntries) - 1)))"

section \<open>Aggregate views\<close>

text \<open>
  \<^verbatim>\<open>sort.Slice\<close> on a slice of at most twelve elements is the insertion sort of Go's
  \<^verbatim>\<open>sort\<close> package: \<^verbatim>\<open>for i := 1; i < n; i++ { for j := i; j > 0 && less(j, j-1); j--
  { swap(j, j-1) } }\<close>.  Both views sort at most one element per registered source, and
  there are five.  \<open>insertLeft\<close> works on the sorted part in reverse: the new element
  moves past the elements it is less than.
\<close>

fun insertLeft :: "('a \<Rightarrow> 'a \<Rightarrow> bool) \<Rightarrow> 'a \<Rightarrow> 'a list \<Rightarrow> 'a list" where
  "insertLeft lt x [] = [x]"
| "insertLeft lt x (y # ys) = (if lt x y then y # insertLeft lt x ys else x # y # ys)"

definition sortSlice :: "('a \<Rightarrow> 'a \<Rightarrow> bool) \<Rightarrow> 'a list \<Rightarrow> 'a list" where
  "sortSlice lt xs = rev (foldl (\<lambda>acc x. insertLeft lt x acc) [] xs)"

text \<open>A registered source; what its \<^verbatim>\<open>FetchFunc\<close> returns is an input of the views.\<close>

record source =
  SourceName :: string
  DisplayName :: string

text \<open>What the program prints: warnings and errors on the standard error, the selected
  entries on the standard output (their rendering is not modelled).\<close>

text \<open>A row of the status view (\<^verbatim>\<open>statusEntry\<close>).\<close>

record statusEntry =
  StatusName :: string
  StatusVersion :: string
  PreviousVersion :: string
  UpdatedAgo :: string
  UpdatedRecently :: bool
  AvgReleaseFreq :: string
  releasedAt :: time

datatype message =
    FetchWarning string error
  | FetchError error
  | NoEntriesError
  | VersionNotFound string

datatype printed =
    NoRecentReleases
  | EntriesJSON "ChangelogEntry list"
  | EntriesText "ChangelogEntry list"
  | VersionList "string list"
  | EntryJSON ChangelogEntry
  | EntryMarkdown ChangelogEntry
  | EntryText string ChangelogEntry
  | StatusJSON "statusEntry list"
  | StatusTable "statusEntry list"
  | Nothing

record run =
  stderr :: "message list"
  stdout :: printed
  exitCode :: nat

text \<open>
  \<^verbatim>\<open>runLatestCommand\<close>.  Each source is fetched by a goroutine of its own, which sends
  at most one \<open>result\<close> to the channel; \<open>arrivals\<close> lists the sources with what their
  fetch returned, in the order in which the goroutines reach the channel.
\<close>

record result =
  rsource :: string
  rdisplay :: string
  rentry :: "ChangelogEntry option"
  rerr :: "error option"

definition latestSend :: "source \<times> (error + ChangelogEntry list) \<Rightarrow> result list" where
  "latestSend a =
     (case snd a of
        Inl err \<Rightarrow> [\<lparr>rsource = SourceName (fst a), rdisplay = DisplayName (fst a),
                      rentry = None, rerr = Some err\<rparr>]
      | Inr entries \<Rightarrow>
          (case entries of
             [] \<Rightarrow> []
           | e # rest \<Rightarrow> [\<lparr>rsource = SourceName (fst a), rdisplay = DisplayName (fst a),
                            rentry = Some (e\<lparr>Source := DisplayName (fst a)\<rparr>), rerr = None\<rparr>]))"

record latestState =
  warnings :: "message list"
  recentEntries :: "ChangelogEntry list"

definition latestReceive :: "time \<Rightarrow> latestState \<Rightarrow> result \<Rightarrow> latestState" where
  "latestReceive cutoff st r =
     (case rerr r of
        Some err \<Rightarrow> st\<lparr>warnings := warnings st @ [FetchWarning (rdisplay r) err]\<rparr>
      | None \<Rightarrow>
          (case rentry r of
             None \<Rightarrow> st
           | Some e \<Rightarrow>
               if \<not> IsZero (ReleasedAt e) \<and> After (ReleasedAt e) cutoff
               then st\<lparr>recentEntries := recentEntries st @ [e]\<rparr> else st))"

definition runLatestCommand ::
  "time \<Rightarrow> (source \<times> (error + ChangelogEntry list)) list \<Rightarrow> bool \<Rightarrow> run" where
  "runLatestCommand now arrivals jsonOutput =
     (let cutoff = now - 24 * Hour;
          results = concat (map latestSend arrivals);
          st = foldl (latestReceive cutoff) \<lparr>warnings = [], recentEntries = []\<rparr> results;
          sorted = sortSlice (\<lambda>a b. After (ReleasedAt a) (ReleasedAt b)) (recentEntries st)
      in \<lparr>stderr = warnings st,
          stdout = (if sorted = [] then NoRecentReleases
                    else if jsonOutput then EntriesJSON sorted else EntriesText sorted),
          exitCode = 0\<rparr>)"

text \<open>
  \<^verbatim>\<open>runStatusCommand\<close>.  Every goroutine sends its result; \<open>arrivals\<close> lists, in the
  order of arrival, the source, what its fetch returned, and the reading of the clock
  that \<^verbatim>\<open>formatRelativeTime\<close> makes when the result is handled.  \<open>now\<close> is the reading
  for the cutoff.
\<close>

text \<open>The order \<^verbatim>\<open><\<close> of Go on strings: byte by byte.\<close>

fun strLess :: "string \<Rightarrow> string \<Rightarrow> bool" where
  "strLess [] [] = False"
| "strLess [] (y # ys) = True"
| "strLess (x # xs) [] = False"
| "strLess (x # xs) (y # ys) =
     ((of_char x :: nat) < of_char y \<or> (x = y \<and> strLess xs ys))"

definition statusLess :: "statusEntry \<Rightarrow> statusEntry \<Rightarrow> bool" where
  "statusLess a b =
     (if IsZero (releasedAt a) \<and> IsZero (releasedAt b) then strLess (StatusName a) (StatusName b)
      else if IsZero (releasedAt a) then False
      else if IsZero (releasedAt b) then True
      else After (releasedAt a) (releasedAt b))"

definition statusRow :: "time \<Rightarrow> string \<Rightarrow> ChangelogEntry list \<Rightarrow> time \<Rightarrow> statusEntry" where
  "statusRow cutoff displayName entries clock =
     (let first = hd entries in
      \<lparr>StatusName = displayName,
       StatusVersion = Version first,
       PreviousVersion = (if 1 < length entries then Version (entries ! 1) else ''-''),
       UpdatedAgo = (if \<not> IsZero (ReleasedAt first)
                     then formatRelativeTime clock (ReleasedAt first) else ''-''),
       UpdatedRecently = (if \<not> IsZero (ReleasedAt first)
                          then After (ReleasedAt first) cutoff else False),
       AvgReleaseFreq = calculateAvgReleaseFreq entries,
       releasedAt = ReleasedAt first\<rparr>)"

record statusState =
  statusWarnings :: "message list"
  statusEntries :: "statusEntry list"

definition statusReceive ::
  "time \<Rightarrow> statusState \<Rightarrow> source \<times> (error + ChangelogEntry list) \<times> time \<Rightarrow> statusState" where
  "statusReceive cutoff st r =
     (case fst (snd r) of
        Inl err \<Rightarrow>
          st\<lparr>statusWarnings := statusWarnings st @ [FetchWarning (DisplayName (fst r)) err]\<rparr>
      | Inr entries \<Rightarrow>
          if entries = [] then st
          else st\<lparr>statusEntries := statusEntries st
                    @ [statusRow cutoff (DisplayName (fst r)) entries (snd (snd r))]\<rparr>)"

definition runStatusCommand ::
  "time \<Rightarrow> (source \<times> (error + ChangelogEntry list) \<times> time) list \<Rightarrow> bool \<Rightarrow> run" where
  "runStatusCommand now arrivals jsonOutput =
     (let cutoff = now - 24 * Hour;
          st = foldl (statusReceive cutoff) \<lparr>statusWarnings = [], statusEntries = []\<rparr> arrivals;
          sorted = sortSlice statusLess (statusEntries st)
      in \<lparr>stderr = statusWarnings st,
          stdout = (if jsonOutput then StatusJSON sorted else StatusTable sorted),
          exitCode = 0\<rparr>)"

section \<open>The command line\<close>

text \<open>
  \<^verbatim>\<open>main\<close> from the call of the source's \<^verbatim>\<open>FetchFunc\<close> on (the single-source mode),
  and its two aggregate commands, which run the view and leave with \<^verbatim>\<open>os.Exit(0)\<close>.
\<close>

record flags =
  jsonOutput :: bool
  mdOutput :: bool
  listVersions :: bool
  targetVersion :: string

definition mainSource :: "source \<Rightarrow> (error + ChangelogEntry list) \<Rightarrow> flags \<Rightarrow> run" where
  "mainSource src fetched fl =
     (case fetched of
        Inl err \<Rightarrow> \<lparr>stderr = [FetchError err], stdout = Nothing, exitCode = 1\<rparr>
      | Inr entries \<Rightarrow>
          if entries = [] then \<lparr>stderr = [NoEntriesError], stdout = Nothing, exitCode = 1\<rparr>
          else if listVersions fl
          then \<lparr>stderr = [], stdout = VersionList (map Version entries), exitCode = 0\<rparr>
          else
            (case (if targetVersion fl \<noteq> []
                   then find (\<lambda>e. Version e = targetVersion fl) entries
                   else Some (hd entries)) of
               None \<Rightarrow> \<lparr>stderr = [VersionNotFound (targetVersion fl)], stdout = Nothing,
                         exitCode = 1\<rparr>
             | Some entry \<Rightarrow>
                 \<lparr>stderr = [],
                  stdout = (if jsonOutput fl then EntryJSON entry
                            else if mdOutput fl then EntryMarkdown entry
                            else EntryText (DisplayName src) entry),
                  exitCode = 0\<rparr>))"

definition mainLatest ::
  "time \<Rightarrow> (source \<times> (error + ChangelogEntry list)) list \<Rightarrow> bool \<Rightarrow> run" where
  "mainLatest now arrivals json = (runLatestCommand now arrivals json)\<lparr>exitCode := 0\<rparr>"

definition mainStatus ::
  "time \<Rightarrow> (source \<times> (error + ChangelogEntry list) \<times> time) list \<Rightarrow> bool \<Rightarrow> run" where
  "mainStatus now arrivals json = (runStatusCommand now arrivals json)\<lparr>exitCode := 0\<rparr>"

section \<open>Notions of the specification\<close>

text \<open>
  What the library guarantees of \<^verbatim>\<open>FindAllStringSubmatchIndex\<close> for a pattern whose
  first group takes part in every match: each match has the offsets of the whole match
  and of group 1, within the text and in order, and the matches do not overlap.
\<close>

definition validMatch :: "string \<Rightarrow> int list \<Rightarrow> bool" where
  "validMatch content m =
     (4 \<le> length m \<and> 0 \<le> m ! 0 \<and> m ! 0 \<le> m ! 1 \<and> m ! 1 \<le> int (length content)
      \<and> 0 \<le> m ! 2 \<and> m ! 2 \<le> m ! 3 \<and> m ! 3 \<le> int (length content))"

fun validMatches :: "string \<Rightarrow> int list list \<Rightarrow> bool" where
  "validMatches content [] = True"
| "validMatches content [m] = validMatch content m"
| "validMatches content (m # m' # ms) =
     (validMatch content m \<and> m ! 1 \<le> m' ! 0 \<and> validMatches content (m' # ms))"

text \<open>The text of capture group 1 of a match; the text from the end of the header
  number \<open>i\<close> to the start of the next header, or to the end of the document; and the
  change lines of a text as the specification words them: the lines, trimmed of white
  space, that start with \<^verbatim>\<open>"- "\<close>, without this marker.\<close>

definition headerVersion :: "string \<Rightarrow> int list \<Rightarrow> string" where
  "headerVersion content m = take (nat (m ! 3 - m ! 2)) (drop (nat (m ! 2)) content)"

definition spanText :: "string \<Rightarrow> int list list \<Rightarrow> nat \<Rightarrow> string" where
  "spanText content matches i =
     (let from = matches ! i ! 1;
          to = (if i + 1 < length matches then matches ! (i + 1) ! 0 else int (length content))
      in take (nat (to - from)) (drop (nat from) content))"

definition changeLines :: "string \<Rightarrow> string list" where
  "changeLines text =
     map (drop 2) (filter (\<lambda>line. HasPrefix line ''- '') (map TrimSpace (Split text)))"

text \<open>
  The entries the latest view keeps, by the test of \<^verbatim>\<open>runLatestCommand\<close>: of each
  source that was fetched, the newest entry only, if its date is not the zero time and
  is \<^verbatim>\<open>After\<close> the cutoff, 24 hours before the start of the command (the code has no
  upper bound; the window of the specification, which has one, is
  \<open>withinTrailingWindow\<close> below), with the display name of the source as its
  \<^verbatim>\<open>Source\<close>; and the entries a run of the view prints.
\<close>

definition latestKept :: "time \<Rightarrow> (source \<times> (error + ChangelogEntry list)) list \<Rightarrow> ChangelogEntry list" where
  "latestKept now arrivals =
     concat (map (\<lambda>a. case snd a of
                         Inl err \<Rightarrow> []
                       | Inr [] \<Rightarrow> []
                       | Inr (e # older) \<Rightarrow>
                           if ReleasedAt e \<noteq> 0 \<and> now - 24 * Hour < ReleasedAt e
                           then [e\<lparr>Source := DisplayName (fst a)\<rparr>] else [])
               arrivals)"

definition printedEntries :: "printed \<Rightarrow> ChangelogEntry list" where
  "printedEntries p = (case p of EntriesJSON es \<Rightarrow> es | EntriesText es \<Rightarrow> es | _ \<Rightarrow> [])"

text \<open>
  The rows a run of the status view prints, the rows it builds before it sorts them, and
  the order of the specification: rows with a date by date, latest first; rows without a
  date after all rows with one, by display name.
\<close>

definition statusRows :: "printed \<Rightarrow> statusEntry list" where
  "statusRows p = (case p of StatusJSON rows \<Rightarrow> rows | StatusTable rows \<Rightarrow> rows | _ \<Rightarrow> [])"

definition statusOrder :: "statusEntry \<Rightarrow> statusEntry \<Rightarrow> bool" where
  "statusOrder a b =
     (if releasedAt a \<noteq> 0 \<and> releasedAt b \<noteq> 0 then releasedAt b \<le> releasedAt a
      else if releasedAt a \<noteq> 0 then True
      else if releasedAt b \<noteq> 0 then False
      else \<not> strLess (StatusName b) (StatusName a))"

definition statusBuilt ::
  "time \<Rightarrow> (source \<times> (error + ChangelogEntry list) \<times> time) list \<Rightarrow> statusEntry list" where
  "statusBuilt now arrivals =
     statusEntries (foldl (statusReceive (now - 24 * Hour))
                      \<lparr>statusWarnings = [], statusEntries = []\<rparr> arrivals)"

text \<open>
  The window of the latest view in the words of the specification, a date within the
  trailing 24 hours from the start of the command; and the average of the intervals
  between the dated entries that \<^verbatim>\<open>calculateAvgReleaseFreq\<close> formats.
\<close>

definition withinTrailingWindow :: "time \<Rightarrow> time \<Rightarrow> bool" where
  "withinTrailingWindow now t = (now - 24 * Hour < t \<and> t \<le> now)"

definition avgInterval :: "ChangelogEntry list \<Rightarrow> duration" where
  "avgInterval entries =
     quot (totalDuration 0 (collectValid [] entries))
       (int (length (collectValid [] entries)) - 1)"


section \<open>Properties of the release-body parser\<close>

text \<open>
  Claim C1, as the code has it.  The body of scenario B,
  \<^verbatim>\<open>"## TUI\n- Added X\n## What's Changed\n- Ignore me\n"\<close>, does not parse to the
  section \<^verbatim>\<open>TUI\<close> with the one change \<^verbatim>\<open>Added X\<close>: the header
  \<^verbatim>\<open>What's Changed\<close> is skipped and leaves \<^verbatim>\<open>currentSection\<close> at \<^verbatim>\<open>TUI\<close>, so the
  bullet after it is appended to \<^verbatim>\<open>TUI\<close>.
\<close>

theorem scenario_B_bullet_dropped_counterexample:
  "parseReleaseBody (''## TUI'' @ [LF] @ ''- Added X'' @ [LF] @ ''## What's Changed'' @ [LF]
                       @ ''- Ignore me'' @ [LF])
     \<noteq> ([\<lparr>Name = ''TUI'', SectionChanges = [''Added X'']\<rparr>], [])"
  by code_simp

text \<open>
  Claim C1, amended: the body of scenario B parses to the single section \<^verbatim>\<open>TUI\<close> with
  the changes \<^verbatim>\<open>Added X\<close> and \<^verbatim>\<open>Ignore me\<close>, in this order, and an empty ungrouped
  list.
\<close>

theorem scenario_B_parses:
  "parseReleaseBody (''## TUI'' @ [LF] @ ''- Added X'' @ [LF] @ ''## What's Changed'' @ [LF]
                       @ ''- Ignore me'' @ [LF])
     = ([\<lparr>Name = ''TUI'', SectionChanges = [''Added X'', ''Ignore me'']\<rparr>], [])"
  by code_simp

text \<open>One line of the body leaves the state as it is, opens a section whose name is not
  \<^verbatim>\<open>What's Changed\<close>, or appends a change to the open section or to the ungrouped list.\<close>

lemma bodyLine_cases:
  "bodyLine st line = st
   \<or> (\<exists>h. h \<noteq> ''What's Changed'' \<and>
          bodyLine st line = st\<lparr>sections := saveSection st,
                                currentSection := Some \<lparr>Name = h, SectionChanges = []\<rparr>\<rparr>)
   \<or> (\<exists>cur c. currentSection st = Some cur \<and>
          bodyLine st line = st\<lparr>currentSection := Some (cur\<lparr>SectionChanges := SectionChanges cur @ [c]\<rparr>)\<rparr>)
   \<or> (\<exists>c. bodyLine st line = st\<lparr>ungroupedChanges := ungroupedChanges st @ [c]\<rparr>)"
proof -
  define tr where "tr = TrimSpace line"
  define isItem where "isItem = (HasPrefix tr ''- '' \<or> HasPrefix tr ''* '')"
  define change where "change = TrimPrefix (TrimPrefix tr ''- '') ''* ''"
  define ok where "ok = (change \<noteq> [] \<and> \<not> HasPrefix change ''@'')"
  define wc where "wc = ''What's Changed''"
  have eq: "bodyLine st line =
     (case headerRegex tr of
        Some m \<Rightarrow>
           if TrimSpace m = wc then st
           else st\<lparr>sections := saveSection st,
                   currentSection := Some \<lparr>Name = TrimSpace m, SectionChanges = []\<rparr>\<rparr>
      | None \<Rightarrow>
          if isItem then
             if ok then
               (case currentSection st of
                  Some cur \<Rightarrow>
                    st\<lparr>currentSection := Some (cur\<lparr>SectionChanges := SectionChanges cur @ [change]\<rparr>)\<rparr>
                | None \<Rightarrow> st\<lparr>ungroupedChanges := ungroupedChanges st @ [change]\<rparr>)
             else st
          else st)"
    unfolding bodyLine_def Let_def tr_def isItem_def change_def ok_def wc_def ..
  show ?thesis
    unfolding eq wc_def [symmetric]
    by (cases "headerRegex tr"; cases isItem; cases ok; cases "currentSection st") auto
qed

lemma saveSection_ok:
  assumes "\<forall>s\<in>set (sections st). SectionChanges s \<noteq> [] \<and> Name s \<noteq> n"
    and "\<forall>cur. currentSection st = Some cur \<longrightarrow> Name cur \<noteq> n"
  shows "\<forall>s\<in>set (saveSection st). SectionChanges s \<noteq> [] \<and> Name s \<noteq> n"
  using assms by (auto simp: saveSection_def split: option.splits)

lemma bodyLine_sections:
  assumes a: "\<forall>s\<in>set (sections st). SectionChanges s \<noteq> [] \<and> Name s \<noteq> ''What's Changed''"
    and b: "\<forall>cur. currentSection st = Some cur \<longrightarrow> Name cur \<noteq> ''What's Changed''"
  shows "(\<forall>s\<in>set (sections (bodyLine st line)). SectionChanges s \<noteq> [] \<and> Name s \<noteq> ''What's Changed'')
       \<and> (\<forall>cur. currentSection (bodyLine st line) = Some cur \<longrightarrow> Name cur \<noteq> ''What's Changed'')"
proof -
  define wc where "wc = ''What's Changed''"
  note s = saveSection_ok [OF a b]
  from bodyLine_cases [of st line] a b s show ?thesis
    unfolding wc_def [symmetric]
    by (elim disjE exE conjE) simp_all
qed

lemma foldl_bodyLine_sections:
  assumes "\<forall>s\<in>set (sections st). SectionChanges s \<noteq> [] \<and> Name s \<noteq> ''What's Changed''"
    and "\<forall>cur. currentSection st = Some cur \<longrightarrow> Name cur \<noteq> ''What's Changed''"
  shows "(\<forall>s\<in>set (sections (foldl bodyLine st ls)). SectionChanges s \<noteq> [] \<and> Name s \<noteq> ''What's Changed'')
       \<and> (\<forall>cur. currentSection (foldl bodyLine st ls) = Some cur \<longrightarrow> Name cur \<noteq> ''What's Changed'')"
  using assms
proof (induction ls arbitrary: st)
  case Nil
  then show ?case by simp
next
  case (Cons l ls)
  have step: "(\<forall>s\<in>set (sections (bodyLine st l)). SectionChanges s \<noteq> [] \<and> Name s \<noteq> ''What's Changed'')
       \<and> (\<forall>cur. currentSection (bodyLine st l) = Some cur \<longrightarrow> Name cur \<noteq> ''What's Changed'')"
    using Cons.prems by (rule bodyLine_sections)
  have "(\<forall>s\<in>set (sections (foldl bodyLine (bodyLine st l) ls)). SectionChanges s \<noteq> [] \<and> Name s \<noteq> ''What's Changed'')
       \<and> (\<forall>cur. currentSection (foldl bodyLine (bodyLine st l) ls) = Some cur \<longrightarrow> Name cur \<noteq> ''What's Changed'')"
    by (rule Cons.IH) (use step in blast)+
  then show ?case by (simp only: foldl_Cons)
qed

text \<open>
  Claim C3: for every release body, every section that \<^verbatim>\<open>parseReleaseBody\<close> returns
  has at least one change, and none is named \<^verbatim>\<open>What's Changed\<close>.
\<close>

theorem sections_nonempty_and_named:
  "\<forall>s\<in>set (fst (parseReleaseBody body)). SectionChanges s \<noteq> [] \<and> Name s \<noteq> ''What's Changed''"
proof -
  define st where "st = foldl bodyLine \<lparr>sections = [], ungroupedChanges = [], currentSection = None\<rparr> (Split body)"
  have "(\<forall>s\<in>set (sections st). SectionChanges s \<noteq> [] \<and> Name s \<noteq> ''What's Changed'')
       \<and> (\<forall>cur. currentSection st = Some cur \<longrightarrow> Name cur \<noteq> ''What's Changed'')"
    unfolding st_def by (rule foldl_bodyLine_sections) simp_all
  then have "\<forall>s\<in>set (saveSection st). SectionChanges s \<noteq> [] \<and> Name s \<noteq> ''What's Changed''"
    by (intro saveSection_ok) blast+
  moreover have "fst (parseReleaseBody body) = saveSection st"
    by (simp add: parseReleaseBody_def Let_def st_def)
  ultimately show ?thesis by (simp only:)
qed

theorem sections_nonempty_and_named_witness:
  "\<lparr>Name = ''Fixes'', SectionChanges = [''One'']\<rparr>
      \<in> set (fst (parseReleaseBody (''# '' @ [LF] @ ''## What's Changed'' @ [LF] @ ''### Empty'' @ [LF] @ ''## Fixes'' @ [LF] @ ''* One'' @ [LF] @ ''- @bot'')))
   \<and> SectionChanges \<lparr>Name = ''Fixes'', SectionChanges = [''One'']\<rparr> \<noteq> []
   \<and> Name \<lparr>Name = ''Fixes'', SectionChanges = [''One'']\<rparr> \<noteq> ''What's Changed''"
proof -
  have mem: "\<lparr>Name = ''Fixes'', SectionChanges = [''One'']\<rparr>
      \<in> set (fst (parseReleaseBody (''# '' @ [LF] @ ''## What's Changed'' @ [LF] @ ''### Empty'' @ [LF] @ ''## Fixes'' @ [LF] @ ''* One'' @ [LF] @ ''- @bot'')))"
    by code_simp
  from sections_nonempty_and_named mem show ?thesis by blast
qed

section \<open>Properties of the markdown changelog parser\<close>

lemma validMatches_nth:
  "validMatches content ms \<Longrightarrow> i < length ms \<Longrightarrow>
     validMatch content (ms ! i) \<and> (i + 1 < length ms \<longrightarrow> ms ! i ! 1 \<le> ms ! (i + 1) ! 0)"
proof (induction content ms arbitrary: i rule: validMatches.induct)
  case (1 content)
  then show ?case by simp
next
  case (2 content m)
  then show ?case by simp
next
  case (3 content m m' ms)
  show ?case
  proof (cases i)
    case 0
    then show ?thesis using "3.prems" by simp
  next
    case (Suc j)
    then have "j < length (m' # ms)" using "3.prems" by simp
    moreover have "validMatches content (m' # ms)" using "3.prems" by simp
    ultimately have "validMatch content ((m' # ms) ! j)
        \<and> (j + 1 < length (m' # ms) \<longrightarrow> (m' # ms) ! j ! 1 \<le> (m' # ms) ! (j + 1) ! 0)"
      by (rule "3.IH" [rotated])
    then show ?thesis using Suc by simp
  qed
qed

lemma entriesLoop_all:
  "(\<And>i. i < n \<Longrightarrow> body i = Inr (f i)) \<Longrightarrow> entriesLoop body n = Inr (map f [0..<n])"
proof (induction n)
  case 0
  then show ?case by (simp add: entriesLoop_def)
next
  case (Suc n)
  have "entriesLoop body n = Inr (map f [0..<n])" using Suc by simp
  moreover have "body n = Inr (f n)" using Suc.prems by simp
  ultimately show ?case by (simp add: entriesLoop_def bindE_def)
qed

lemma foldl_changes:
  "foldl (\<lambda>changes line. if P (g line) then changes @ [h (g line)] else changes) acc ls
     = acc @ map h (filter P (map g ls))"
  by (induction ls arbitrary: acc) simp_all

lemma HasPrefix_take: "HasPrefix s p = (take (length p) s = p)"
  by (induction s p rule: HasPrefix.induct) auto

lemma parseChanges_changeLines: "parseChanges text = changeLines text"
proof -
  have "parseChanges text =
      foldl (\<lambda>changes line. if HasPrefix (TrimSpace line) ''- ''
                             then changes @ [TrimPrefix (TrimSpace line) ''- ''] else changes)
        [] (Split text)"
    by (simp add: parseChanges_def Let_def)
  also have "\<dots> = [] @ map (\<lambda>t. TrimPrefix t ''- '') (filter (\<lambda>t. HasPrefix t ''- '') (map TrimSpace (Split text)))"
    by (rule foldl_changes)
  also have "\<dots> = changeLines text"
    unfolding changeLines_def by (simp add: TrimPrefix_def numeral_2_eq_2 cong: map_cong)
  finally show ?thesis .
qed

lemma slice_ok:
  "0 \<le> a \<Longrightarrow> a \<le> b \<Longrightarrow> b \<le> int (length s) \<Longrightarrow>
     slice s a b = Inr (take (nat (b - a)) (drop (nat a) s))"
  by (simp add: slice_def)

lemma contentEnd_ok:
  assumes "validMatches content ms" "i < length ms"
  shows "\<exists>c. contentEnd content ms i = Inr c \<and> ms ! i ! 1 \<le> c \<and> c \<le> int (length content)
          \<and> spanText content ms i = take (nat (c - ms ! i ! 1)) (drop (nat (ms ! i ! 1)) content)"
proof (cases "i + 1 < length ms")
  case True
  have v: "validMatch content (ms ! (i + 1))"
    using validMatches_nth [OF assms(1) True] by simp
  have "ms ! i ! 1 \<le> ms ! (i + 1) ! 0"
    using validMatches_nth [OF assms] True by simp
  then show ?thesis using True v
    by (auto simp: contentEnd_def index_def validMatch_def spanText_def Let_def)
next
  case False
  have "validMatch content (ms ! i)" using validMatches_nth [OF assms] by simp
  then show ?thesis using False
    by (auto simp: contentEnd_def validMatch_def spanText_def Let_def)
qed

lemma markdownEntry_ok:
  assumes "validMatches content ms" "i < length ms"
  shows "markdownEntry content ms i =
     Inr \<lparr>Version = headerVersion content (ms ! i), ReleasedAt = 0, Source = [], Sections = [],
          Changes = changeLines (spanText content ms i)\<rparr>"
proof -
  have v: "validMatch content (ms ! i)" using validMatches_nth [OF assms] by simp
  obtain c where c: "contentEnd content ms i = Inr c" "ms ! i ! 1 \<le> c" "c \<le> int (length content)"
      "spanText content ms i = take (nat (c - ms ! i ! 1)) (drop (nat (ms ! i ! 1)) content)"
    using contentEnd_ok [OF assms] by blast
  have s: "slice content (ms ! i ! 1) c = Inr (spanText content ms i)"
    using v c by (simp add: slice_ok validMatch_def)
  have idx: "index (ms ! i) 1 = Inr (ms ! i ! 1)" "index (ms ! i) 2 = Inr (ms ! i ! 2)"
      "index (ms ! i) 3 = Inr (ms ! i ! 3)"
    using v by (simp_all add: index_def validMatch_def)
  have h: "slice content (ms ! i ! 2) (ms ! i ! 3) = Inr (headerVersion content (ms ! i))"
    using v by (simp add: slice_ok validMatch_def headerVersion_def)
  show ?thesis using idx h c(1) s
    by (simp add: markdownEntry_def Let_def bindE_def parseChanges_changeLines)
qed

lemma submatch_first:
  "4 \<le> length m \<Longrightarrow> 0 \<le> m ! 2 \<Longrightarrow>
     index (submatch content m) 1 = Inr (take (nat (m ! 3 - m ! 2)) (drop (nat (m ! 2)) content))"
proof -
  assume a: "4 \<le> length m" "0 \<le> m ! 2"
  then obtain a0 a1 a2 a3 rest where m: "m = a0 # a1 # a2 # a3 # rest"
    by (cases m; simp; rename_tac x xs; case_tac xs; simp; rename_tac y ys; case_tac ys; simp;
        rename_tac z zs; case_tac zs; simp)
  show ?thesis using a by (simp add: m index_def)
qed

lemma optionalDateEntry_ok:
  assumes "validMatches content ms" "i < length ms"
  shows "\<exists>t. optionalDateEntry parseDate content ms i =
     Inr \<lparr>Version = headerVersion content (ms ! i), ReleasedAt = t, Source = [], Sections = [],
          Changes = changeLines (spanText content ms i)\<rparr>"
proof -
  have v: "validMatch content (ms ! i)" using validMatches_nth [OF assms] by simp
  obtain c where c: "contentEnd content ms i = Inr c" "ms ! i ! 1 \<le> c" "c \<le> int (length content)"
      "spanText content ms i = take (nat (c - ms ! i ! 1)) (drop (nat (ms ! i ! 1)) content)"
    using contentEnd_ok [OF assms] by blast
  have s: "slice content (ms ! i ! 1) c = Inr (spanText content ms i)"
    using v c by (simp add: slice_ok validMatch_def)
  have idx: "index (ms ! i) 1 = Inr (ms ! i ! 1)"
    using v by (simp add: index_def validMatch_def)
  have h: "index (submatch content (ms ! i)) 1 = Inr (headerVersion content (ms ! i))"
    using v by (simp add: submatch_first validMatch_def headerVersion_def)
  show ?thesis using idx h c(1) s
    by (simp add: optionalDateEntry_def Let_def bindE_def parseChanges_changeLines)
qed

text \<open>
  Claim C2: for every document and every list of matches of a version pattern in it, the
  markdown changelog parser returns one entry per match, in the order of the matches;
  the version of entry \<open>i\<close> is the text of group 1 of match \<open>i\<close>, and its changes are
  the trimmed lines starting with \<^verbatim>\<open>"- "\<close>, the marker removed, of the text between
  the end of header \<open>i\<close> and the start of header \<open>i + 1\<close> (the end of the document for
  the last); no match gives the empty list.  This holds for \<^verbatim>\<open>parseMarkdownChangelog\<close>
  and for \<^verbatim>\<open>parseMarkdownChangelogWithOptionalDate\<close>.
\<close>

theorem markdown_parser_entries:
  assumes "validMatches content matches"
  shows "parseMarkdownChangelog content matches =
           Inr (map (\<lambda>i. \<lparr>Version = headerVersion content (matches ! i), ReleasedAt = 0,
                           Source = [], Sections = [],
                           Changes = changeLines (spanText content matches i)\<rparr>)
                  [0..<length matches])
       \<and> (\<exists>entries.
             parseMarkdownChangelogWithOptionalDate parseDate content matches = Inr entries
           \<and> map Version entries = map (\<lambda>i. headerVersion content (matches ! i)) [0..<length matches]
           \<and> map Changes entries = map (\<lambda>i. changeLines (spanText content matches i)) [0..<length matches])
       \<and> parseMarkdownChangelog content [] = Inr []
       \<and> parseMarkdownChangelogWithOptionalDate parseDate content [] = Inr []"
proof (intro conjI)
  show "parseMarkdownChangelog content matches =
           Inr (map (\<lambda>i. \<lparr>Version = headerVersion content (matches ! i), ReleasedAt = 0,
                           Source = [], Sections = [],
                           Changes = changeLines (spanText content matches i)\<rparr>)
                  [0..<length matches])"
    unfolding parseMarkdownChangelog_def
    by (rule entriesLoop_all) (rule markdownEntry_ok [OF assms])
next
  define t where "t = (\<lambda>i. SOME t. optionalDateEntry parseDate content matches i =
     Inr \<lparr>Version = headerVersion content (matches ! i), ReleasedAt = t, Source = [], Sections = [],
          Changes = changeLines (spanText content matches i)\<rparr>)"
  have e: "optionalDateEntry parseDate content matches i =
     Inr \<lparr>Version = headerVersion content (matches ! i), ReleasedAt = t i, Source = [], Sections = [],
          Changes = changeLines (spanText content matches i)\<rparr>" if "i < length matches" for i
    unfolding t_def using optionalDateEntry_ok [OF assms that, of parseDate] by (rule someI_ex)
  have "parseMarkdownChangelogWithOptionalDate parseDate content matches =
     Inr (map (\<lambda>i. \<lparr>Version = headerVersion content (matches ! i), ReleasedAt = t i, Source = [],
                    Sections = [], Changes = changeLines (spanText content matches i)\<rparr>)
            [0..<length matches])"
    unfolding parseMarkdownChangelogWithOptionalDate_def
    by (rule entriesLoop_all) (rule e)
  then show "\<exists>entries.
             parseMarkdownChangelogWithOptionalDate parseDate content matches = Inr entries
           \<and> map Version entries = map (\<lambda>i. headerVersion content (matches ! i)) [0..<length matches]
           \<and> map Changes entries = map (\<lambda>i. changeLines (spanText content matches i)) [0..<length matches]"
    by (simp add: comp_def)
next
  show "parseMarkdownChangelog content [] = Inr []"
    by (simp add: parseMarkdownChangelog_def entriesLoop_def)
next
  show "parseMarkdownChangelogWithOptionalDate parseDate content [] = Inr []"
    by (simp add: parseMarkdownChangelogWithOptionalDate_def entriesLoop_def)
qed

theorem markdown_parser_entries_witness:
  "validMatches (''## 1.2.0'' @ [LF] @ ''- Fixed bug'' @ [LF] @ ''## 1.1.0'' @ [LF] @ ''- Initial'' @ [LF])
     [[0, 8, 3, 8], [21, 29, 24, 29]]
   \<and> parseMarkdownChangelog
       (''## 1.2.0'' @ [LF] @ ''- Fixed bug'' @ [LF] @ ''## 1.1.0'' @ [LF] @ ''- Initial'' @ [LF])
       [[0, 8, 3, 8], [21, 29, 24, 29]]
     = Inr [\<lparr>Version = ''1.2.0'', ReleasedAt = 0, Source = [], Sections = [], Changes = [''Fixed bug'']\<rparr>,
            \<lparr>Version = ''1.1.0'', ReleasedAt = 0, Source = [], Sections = [], Changes = [''Initial'']\<rparr>]"
proof -
  define doc where "doc = ''## 1.2.0'' @ [LF] @ ''- Fixed bug'' @ [LF] @ ''## 1.1.0'' @ [LF] @ ''- Initial'' @ [LF]"
  define ms :: "int list list" where "ms = [[0, 8, 3, 8], [21, 29, 24, 29]]"
  have h: "validMatches doc ms"
    unfolding doc_def ms_def by code_simp
  have e: "map (\<lambda>i. \<lparr>Version = headerVersion doc (ms ! i), ReleasedAt = 0,
                           Source = [], Sections = [],
                           Changes = changeLines (spanText doc ms i)\<rparr>)
                  [0..<length ms]
      = [\<lparr>Version = ''1.2.0'', ReleasedAt = 0, Source = [], Sections = [], Changes = [''Fixed bug'']\<rparr>,
         \<lparr>Version = ''1.1.0'', ReleasedAt = 0, Source = [], Sections = [], Changes = [''Initial'']\<rparr>]"
    unfolding doc_def ms_def by code_simp
  from markdown_parser_entries [OF h] have "parseMarkdownChangelog doc ms =
           Inr (map (\<lambda>i. \<lparr>Version = headerVersion doc (ms ! i), ReleasedAt = 0,
                           Source = [], Sections = [],
                           Changes = changeLines (spanText doc ms i)\<rparr>)
                  [0..<length ms])"
    by (rule conjunct1)
  with e h show ?thesis unfolding doc_def ms_def by (simp only:)
qed

section \<open>Properties of the version normalization\<close>

text \<open>
  Claim C4, as the code has it: a tag that starts with \<^verbatim>\<open>v\<close> followed by
  \<^verbatim>\<open>rust-v\<close> loses both prefixes, not one.
\<close>

theorem normalizeVersion_two_prefixes_counterexample:
  "normalizeVersion (''v'' @ ''rust-v'' @ ''1.0'') = ''1.0''"
  by code_simp

text \<open>
  Claim C4, amended: the normalization removes a leading \<^verbatim>\<open>v\<close> and then a leading
  \<^verbatim>\<open>rust-v\<close> of what is left.  So a tag that starts with \<^verbatim>\<open>vrust-v\<close> loses these
  seven characters, any other tag that starts with \<^verbatim>\<open>v\<close> loses this one character,
  a tag that starts with \<^verbatim>\<open>rust-v\<close> loses these six, and a tag that starts with
  neither prefix is unchanged.
\<close>

theorem normalizeVersion_cases:
  "normalizeVersion tag =
     (if HasPrefix tag ''vrust-v'' then drop 7 tag
      else if HasPrefix tag ''v'' then drop 1 tag
      else if HasPrefix tag ''rust-v'' then drop 6 tag
      else tag)"
proof (cases tag)
  case Nil
  then show ?thesis by (simp add: normalizeVersion_def TrimPrefix_def)
next
  case (Cons c cs)
  show ?thesis
  proof (cases "c = CHR ''v''")
    case True
    then show ?thesis using Cons
      by (simp add: normalizeVersion_def TrimPrefix_def HasPrefix_take eval_nat_numeral)
  next
    case False
    then show ?thesis using Cons
      by (simp add: normalizeVersion_def TrimPrefix_def HasPrefix_take eval_nat_numeral)
  qed
qed

section \<open>Properties of the source adapters\<close>



lemma bindE_Inr: "bindE m f = Inr y \<Longrightarrow> \<exists>x. m = Inr x \<and> f x = Inr y"
  by (cases m) (simp_all add: bindE_def)













text \<open>
  Claim C8: \<^verbatim>\<open>fetchClaudeChangelog\<close> asks the commit history exactly when the document
  was fetched and parsed, has an entry, and the first entry has no date.  What it
  returns is the parsed list, with one possible change: the date of the first entry,
  when that entry has none and the commit history gives one.  All other fields and all
  other entries are as parsed.
\<close>

theorem claude_fallback_frame:
  "(askedCommits (fetchClaudeChangelog parseDate parseRFC3339 findAll resp commitsResp)
      = (\<exists>e es. bindE (httpGet resp) (\<lambda>content.
                    parseMarkdownChangelogWithOptionalDate parseDate content (findAll content))
                  = Inr (e # es) \<and> IsZero (ReleasedAt e)))
   \<and> returned (fetchClaudeChangelog parseDate parseRFC3339 findAll resp commitsResp)
      = (case bindE (httpGet resp) (\<lambda>content.
                parseMarkdownChangelogWithOptionalDate parseDate content (findAll content)) of
           Inl err \<Rightarrow> Inl err
         | Inr [] \<Rightarrow> Inr []
         | Inr (e # es) \<Rightarrow>
             Inr (e\<lparr>ReleasedAt :=
                      (if IsZero (ReleasedAt e)
                          \<and> \<not> IsZero (fetchGitHubFileLastCommitDate parseRFC3339 commitsResp)
                       then fetchGitHubFileLastCommitDate parseRFC3339 commitsResp
                       else ReleasedAt e)\<rparr> # es))"
proof (cases "httpGet resp")
  case (Inl err)
  then show ?thesis by (simp add: fetchClaudeChangelog_def bindE_def)
next
  case (Inr content)
  show ?thesis
  proof (cases "parseMarkdownChangelogWithOptionalDate parseDate content (findAll content)")
    case (Inl err)
    then show ?thesis using Inr by (simp add: fetchClaudeChangelog_def bindE_def)
  next
    case R: (Inr entries)
    show ?thesis
    proof (cases entries)
      case Nil
      then show ?thesis using Inr R by (simp add: fetchClaudeChangelog_def bindE_def)
    next
      case (Cons e es)
      then show ?thesis using Inr R
        by (simp add: fetchClaudeChangelog_def bindE_def Let_def setFirstReleasedAt_def)
    qed
  qed
qed

section \<open>Properties of the aggregate views\<close>

text \<open>
  Claim C10: in the latest view, a source whose fetch succeeds with no entry changes
  nothing: the run is the one without that source, warnings included.  With only such a
  source the run prints no warning and the line \<^verbatim>\<open>No releases in the last 24 hours.\<close>,
  and the command ends with exit code 0 whatever arrives.  A failed fetch, for
  comparison, prints a warning, and in the single-source mode an empty list is an error
  with exit code 1.
\<close>

theorem empty_source_in_latest:
  "runLatestCommand now (before @ [(src, Inr [])] @ after) json
     = runLatestCommand now (before @ after) json
   \<and> runLatestCommand now [(src, Inr [])] json
     = \<lparr>stderr = [], stdout = NoRecentReleases, exitCode = 0\<rparr>
   \<and> exitCode (mainLatest now arrivals json) = 0
   \<and> stderr (runLatestCommand now [(src, Inl err)] json) = [FetchWarning (DisplayName src) err]
   \<and> mainSource src (Inr []) fl = \<lparr>stderr = [NoEntriesError], stdout = Nothing, exitCode = 1\<rparr>"
  by (simp add: runLatestCommand_def latestSend_def latestReceive_def sortSlice_def
        mainLatest_def mainSource_def Let_def)

section \<open>Sorting\<close>

text \<open>\<open>sortSlice\<close> permutes its input, and sorts it when the comparison is asymmetric and
  its negation transitive.\<close>

lemma mset_insertLeft: "mset (insertLeft lt x ys) = add_mset x (mset ys)"
  by (induction ys) simp_all

lemma set_insertLeft: "set (insertLeft lt x ys) = insert x (set ys)"
  by (induction ys) auto

lemma sorted_insertLeft:
  assumes asym: "\<And>a b. lt a b \<Longrightarrow> \<not> lt b a"
    and ntrans: "\<And>a b c. \<not> lt a b \<Longrightarrow> \<not> lt b c \<Longrightarrow> \<not> lt a c"
  shows "sorted_wrt (\<lambda>a b. \<not> lt a b) ys \<Longrightarrow> sorted_wrt (\<lambda>a b. \<not> lt a b) (insertLeft lt x ys)"
proof (induction ys)
  case Nil
  then show ?case by simp
next
  case (Cons y ys)
  show ?case
  proof (cases "lt x y")
    case True
    have "\<not> lt y x" using True by (rule asym)
    then show ?thesis using True Cons by (auto simp: set_insertLeft)
  next
    case False
    have "\<not> lt x z" if "z \<in> set ys" for z
    proof -
      have "\<not> lt y z" using Cons.prems that by simp
      with False show ?thesis by (rule ntrans)
    qed
    then show ?thesis using False Cons.prems by simp
  qed
qed

lemma foldl_insertLeft:
  assumes asym: "\<And>a b. lt a b \<Longrightarrow> \<not> lt b a"
    and ntrans: "\<And>a b c. \<not> lt a b \<Longrightarrow> \<not> lt b c \<Longrightarrow> \<not> lt a c"
  shows "sorted_wrt (\<lambda>a b. \<not> lt a b) acc \<Longrightarrow>
         sorted_wrt (\<lambda>a b. \<not> lt a b) (foldl (\<lambda>acc x. insertLeft lt x acc) acc xs)"
proof (induction xs arbitrary: acc)
  case Nil
  then show ?case by simp
next
  case (Cons x xs)
  have "sorted_wrt (\<lambda>a b. \<not> lt a b) (insertLeft lt x acc)"
    using asym ntrans Cons.prems by (rule sorted_insertLeft)
  then show ?case using Cons.IH by simp
qed

lemma mset_foldl_insertLeft:
  "mset (foldl (\<lambda>acc x. insertLeft lt x acc) acc xs) = mset acc + mset xs"
  by (induction xs arbitrary: acc) (simp_all add: mset_insertLeft)

lemma mset_sortSlice: "mset (sortSlice lt xs) = mset xs"
  by (simp add: sortSlice_def mset_foldl_insertLeft)

lemma sorted_sortSlice:
  assumes asym: "\<And>a b. lt a b \<Longrightarrow> \<not> lt b a"
    and ntrans: "\<And>a b c. \<not> lt a b \<Longrightarrow> \<not> lt b c \<Longrightarrow> \<not> lt a c"
  shows "sorted_wrt (\<lambda>a b. \<not> lt b a) (sortSlice lt xs)"
proof -
  have "sorted_wrt (\<lambda>a b. \<not> lt a b) ([] :: 'a list)"
    by simp
  with asym ntrans
  have "sorted_wrt (\<lambda>a b. \<not> lt a b) (foldl (\<lambda>acc x. insertLeft lt x acc) [] xs)"
    by (rule foldl_insertLeft)
  then show ?thesis by (simp add: sortSlice_def sorted_wrt_rev)
qed

lemma latestReceive_foldl:
  "foldl (latestReceive cutoff) st rs =
     \<lparr>warnings = warnings st @ concat (map (\<lambda>r. case rerr r of Some err \<Rightarrow> [FetchWarning (rdisplay r) err] | None \<Rightarrow> []) rs),
      recentEntries = recentEntries st @ concat (map (\<lambda>r. case rerr r of Some err \<Rightarrow> []
            | None \<Rightarrow> (case rentry r of None \<Rightarrow> []
                | Some e \<Rightarrow> if \<not> IsZero (ReleasedAt e) \<and> After (ReleasedAt e) cutoff then [e] else [])) rs)\<rparr>"
proof (induction rs arbitrary: st)
  case Nil
  then show ?case by simp
next
  case (Cons r rs)
  show ?case
    unfolding foldl_Cons Cons
    by (simp add: latestReceive_def split: option.splits)
qed

lemma recent_latestKept:
  "recentEntries (foldl (latestReceive (now - 24 * Hour)) \<lparr>warnings = [], recentEntries = []\<rparr>
       (concat (map latestSend arrivals))) = latestKept now arrivals"
proof -
  have "concat (map (\<lambda>r. case rerr r of Some err \<Rightarrow> []
            | None \<Rightarrow> (case rentry r of None \<Rightarrow> []
                | Some e \<Rightarrow> if \<not> IsZero (ReleasedAt e) \<and> After (ReleasedAt e) (now - 24 * Hour) then [e] else []))
          (concat (map latestSend arrivals))) = latestKept now arrivals"
  proof (induction arrivals)
    case Nil
    then show ?case by (simp add: latestKept_def)
  next
    case (Cons a as)
    then show ?case
      by (simp add: latestKept_def latestSend_def IsZero_def After_def split: sum.splits list.splits)
  qed
  then show ?thesis by (simp add: latestReceive_foldl)
qed

lemma latest_output:
  "printedEntries (stdout (runLatestCommand now arrivals json))
     = sortSlice (\<lambda>a b. After (ReleasedAt a) (ReleasedAt b)) (latestKept now arrivals)"
  by (simp add: runLatestCommand_def Let_def recent_latestKept printedEntries_def)

text \<open>
  Claim C5, as the code has it: the test of the latest view is
  \<^verbatim>\<open>ReleasedAt.After(now - 24h)\<close> and nothing else, so an entry dated one hour after
  the start of the command, which is not within the trailing 24 hours, is printed.
\<close>

theorem future_entry_printed_counterexample:
  "stdout (runLatestCommand 360000000000000
      [(\<lparr>SourceName = ''codex'', DisplayName = ''OpenAI Codex''\<rparr>,
          Inr [\<lparr>Version = ''0.76.0'', ReleasedAt = 363600000000000, Source = [],
                 Sections = [], Changes = []\<rparr>])]
      False)
     = EntriesText [\<lparr>Version = ''0.76.0'', ReleasedAt = 363600000000000, Source = ''OpenAI Codex'',
                      Sections = [], Changes = []\<rparr>]
   \<and> \<not> withinTrailingWindow 360000000000000 363600000000000"
  by code_simp

text \<open>
  Claim C5, amended: the latest view prints a permutation of the kept entries (the newest
  entry of each fetched source, if it has a non-zero date later than 24 hours before the
  start of the command, with no upper bound on the date, stamped with the display name
  of its source), sorted by date with the latest first.  Every printed entry has a
  non-zero date later than 24 hours before the start.  The view prints the line about no
  releases exactly when no entry is kept.
\<close>

theorem latest_view:
  "mset (printedEntries (stdout (runLatestCommand now arrivals json))) = mset (latestKept now arrivals)
   \<and> sorted_wrt (\<lambda>a b. ReleasedAt b \<le> ReleasedAt a)
        (printedEntries (stdout (runLatestCommand now arrivals json)))
   \<and> (\<forall>e \<in> set (printedEntries (stdout (runLatestCommand now arrivals json))).
         ReleasedAt e \<noteq> 0 \<and> now - 24 * Hour < ReleasedAt e)
   \<and> ((stdout (runLatestCommand now arrivals json) = NoRecentReleases) = (latestKept now arrivals = []))"
proof (intro conjI)
  show m: "mset (printedEntries (stdout (runLatestCommand now arrivals json))) = mset (latestKept now arrivals)"
    by (simp add: latest_output mset_sortSlice)
  have "sorted_wrt (\<lambda>a b. \<not> After (ReleasedAt b) (ReleasedAt a))
          (sortSlice (\<lambda>a b. After (ReleasedAt a) (ReleasedAt b)) (latestKept now arrivals))"
    by (rule sorted_sortSlice) (simp_all add: After_def)
  then show "sorted_wrt (\<lambda>a b. ReleasedAt b \<le> ReleasedAt a)
        (printedEntries (stdout (runLatestCommand now arrivals json)))"
    by (simp add: latest_output After_def not_less)
  have "\<forall>e \<in> set (latestKept now arrivals). ReleasedAt e \<noteq> 0 \<and> now - 24 * Hour < ReleasedAt e"
    by (auto simp: latestKept_def split: sum.splits list.splits if_splits)
  moreover have "set (printedEntries (stdout (runLatestCommand now arrivals json))) = set (latestKept now arrivals)"
    using m by (rule mset_eq_setD)
  ultimately show "\<forall>e \<in> set (printedEntries (stdout (runLatestCommand now arrivals json))).
         ReleasedAt e \<noteq> 0 \<and> now - 24 * Hour < ReleasedAt e"
    by simp
  have "(sortSlice (\<lambda>a b. After (ReleasedAt a) (ReleasedAt b)) (latestKept now arrivals) = [])
       = (latestKept now arrivals = [])"
    using mset_sortSlice [of "\<lambda>a b. After (ReleasedAt a) (ReleasedAt b)" "latestKept now arrivals"]
    by (metis mset_zero_iff)
  then show "(stdout (runLatestCommand now arrivals json) = NoRecentReleases) = (latestKept now arrivals = [])"
    by (simp add: runLatestCommand_def Let_def recent_latestKept)
qed


theorem latest_view_witness:
  "\<lparr>Version = ''0.76.0'', ReleasedAt = 356400000000000, Source = ''OpenAI Codex'',
     Sections = [], Changes = [''Add /ps command'']\<rparr>
     \<in> set (printedEntries (stdout (runLatestCommand 360000000000000
          [(\<lparr>SourceName = ''claude'', DisplayName = ''Claude Code''\<rparr>,
              Inr [\<lparr>Version = ''2.0.73'', ReleasedAt = 0, Source = [], Sections = [], Changes = []\<rparr>]),
           (\<lparr>SourceName = ''codex'', DisplayName = ''OpenAI Codex''\<rparr>,
              Inr [\<lparr>Version = ''0.76.0'', ReleasedAt = 356400000000000, Source = [],
                     Sections = [], Changes = [''Add /ps command'']\<rparr>,
                   \<lparr>Version = ''0.75.0'', ReleasedAt = 359000000000000, Source = [],
                     Sections = [], Changes = []\<rparr>]),
           (\<lparr>SourceName = ''gemini'', DisplayName = ''Gemini CLI''\<rparr>, Inl (TransportError ''timeout'')),
           (\<lparr>SourceName = ''opencode'', DisplayName = ''OpenCode''\<rparr>,
              Inr [\<lparr>Version = ''1.0.170'', ReleasedAt = 180000000000000, Source = [],
                     Sections = [], Changes = []\<rparr>])]
          False)))
   \<and> ReleasedAt \<lparr>Version = ''0.76.0'', ReleasedAt = 356400000000000, Source = ''OpenAI Codex'',
                   Sections = [], Changes = [''Add /ps command'']\<rparr> \<noteq> 0
   \<and> 360000000000000 - 24 * Hour
       < ReleasedAt \<lparr>Version = ''0.76.0'', ReleasedAt = 356400000000000, Source = ''OpenAI Codex'',
                      Sections = [], Changes = [''Add /ps command'']\<rparr>"
proof -
  have mem: "\<lparr>Version = ''0.76.0'', ReleasedAt = 356400000000000, Source = ''OpenAI Codex'',
     Sections = [], Changes = [''Add /ps command'']\<rparr>
     \<in> set (printedEntries (stdout (runLatestCommand 360000000000000
          [(\<lparr>SourceName = ''claude'', DisplayName = ''Claude Code''\<rparr>,
              Inr [\<lparr>Version = ''2.0.73'', ReleasedAt = 0, Source = [], Sections = [], Changes = []\<rparr>]),
           (\<lparr>SourceName = ''codex'', DisplayName = ''OpenAI Codex''\<rparr>,
              Inr [\<lparr>Version = ''0.76.0'', ReleasedAt = 356400000000000, Source = [],
                     Sections = [], Changes = [''Add /ps command'']\<rparr>,
                   \<lparr>Version = ''0.75.0'', ReleasedAt = 359000000000000, Source = [],
                     Sections = [], Changes = []\<rparr>]),
           (\<lparr>SourceName = ''gemini'', DisplayName = ''Gemini CLI''\<rparr>, Inl (TransportError ''timeout'')),
           (\<lparr>SourceName = ''opencode'', DisplayName = ''OpenCode''\<rparr>,
              Inr [\<lparr>Version = ''1.0.170'', ReleasedAt = 180000000000000, Source = [],
                     Sections = [], Changes = []\<rparr>])]
          False)))"
    by code_simp
  from latest_view mem show ?thesis by blast
qed

lemma strLess_irrefl: "\<not> strLess a a"
  by (induction a) simp_all

lemma strLess_asym: "strLess a b \<Longrightarrow> \<not> strLess b a"
  by (induction a b rule: strLess.induct) auto

lemma strLess_ntrans: "\<not> strLess a b \<Longrightarrow> \<not> strLess b c \<Longrightarrow> \<not> strLess a c"
proof (induction a b arbitrary: c rule: strLess.induct)
  case 1
  then show ?case by simp
next
  case (2 y ys)
  then show ?case by simp
next
  case (3 x xs)
  then show ?case by (cases c) simp_all
next
  case (4 x xs y ys)
  show ?case
  proof (cases c)
    case Nil
    then show ?thesis by simp
  next
    case (Cons z zs)
    have xy: "\<not> (of_char x :: nat) < of_char y" and yz: "\<not> (of_char y :: nat) < of_char z"
      using "4.prems" Cons by auto
    show ?thesis
    proof (cases "x = y \<and> y = z")
      case True
      then have "\<not> strLess xs ys" "\<not> strLess ys zs" using "4.prems" Cons by auto
      then have "\<not> strLess xs zs" using "4.IH" by blast
      then show ?thesis using True Cons by simp
    next
      case False
      have "(of_char x :: nat) \<noteq> of_char y \<or> (of_char y :: nat) \<noteq> of_char z"
        using False by auto
      then have "(of_char z :: nat) < of_char x" using xy yz by linarith
      then show ?thesis using Cons by auto
    qed
  qed
qed

lemma statusLess_asym: "statusLess a b \<Longrightarrow> \<not> statusLess b a"
  by (auto simp: statusLess_def IsZero_def After_def dest: strLess_asym split: if_splits)

lemma statusLess_ntrans: "\<not> statusLess a b \<Longrightarrow> \<not> statusLess b c \<Longrightarrow> \<not> statusLess a c"
  by (auto simp: statusLess_def IsZero_def After_def dest: strLess_ntrans split: if_splits)


lemma status_output:
  "statusRows (stdout (runStatusCommand now arrivals json))
     = sortSlice statusLess (statusBuilt now arrivals)"
  by (simp add: runStatusCommand_def Let_def statusRows_def statusBuilt_def)

lemma status_sorted: "sorted_wrt statusOrder (sortSlice statusLess rows)"
proof -
  have "sorted_wrt (\<lambda>a b. \<not> statusLess b a) (sortSlice statusLess rows)"
    by (rule sorted_sortSlice) (erule statusLess_asym, erule (1) statusLess_ntrans)
  moreover have "(\<lambda>a b. \<not> statusLess b a) = statusOrder"
    by (intro ext) (auto simp: statusLess_def statusOrder_def IsZero_def After_def)
  ultimately show ?thesis by simp
qed

lemma three_sorted:
  assumes m: "mset out = {#r1, r2, r3#}"
    and s: "sorted_wrt statusOrder out"
    and d: "releasedAt r3 \<noteq> 0" "releasedAt r2 \<noteq> 0" "releasedAt r1 \<noteq> 0"
    and o: "releasedAt r3 < releasedAt r2" "releasedAt r2 < releasedAt r1"
  shows "out = [r1, r2, r3]"
proof -
  have "length out = 3" using m by (metis size_mset size_add_mset size_empty numeral_3_eq_3)
  then obtain a b c where out: "out = [a, b, c]"
    by (cases out; simp; rename_tac x xs; case_tac xs; simp; rename_tac y ys; case_tac ys; simp)
  have "set_mset (mset out) = set_mset {#r1, r2, r3#}"
    using m by simp
  then have set: "{a, b, c} = {r1, r2, r3}"
    using out by simp
  have dated: "releasedAt a \<noteq> 0" "releasedAt b \<noteq> 0" "releasedAt c \<noteq> 0"
    using set d by auto
  have ord: "releasedAt b \<le> releasedAt a" "releasedAt c \<le> releasedAt b"
    using s dated by (simp_all add: out statusOrder_def)
  have times: "mset (map releasedAt [a, b, c]) = mset (map releasedAt [r1, r2, r3])"
    using m out by (metis mset_map mset.simps)
  have "rev (map releasedAt [a, b, c]) = sort (map releasedAt [r1, r2, r3])"
  proof (rule properties_for_sort [symmetric])
    have "mset (rev (map releasedAt [a, b, c])) = mset (map releasedAt [a, b, c])"
      by (rule mset_rev)
    then show "mset (rev (map releasedAt [a, b, c])) = mset (map releasedAt [r1, r2, r3])"
      using times by (simp only:)
    show "sorted (rev (map releasedAt [a, b, c]))" using ord by simp
  qed
  moreover have "sort (map releasedAt [r1, r2, r3]) = rev (map releasedAt [r1, r2, r3])"
    using o by (simp add: insort_is_Cons)
  ultimately have t: "releasedAt a = releasedAt r1" "releasedAt b = releasedAt r2"
      "releasedAt c = releasedAt r3"
    by simp_all
  have "a = r1" using set t o by (metis insertE insertI1 less_irrefl less_trans singletonD)
  moreover have "b = r2" using set t o by (metis insertE insertI1 insert_commute less_irrefl less_trans singletonD)
  moreover have "c = r3" using set t o by (metis insertE insertI1 insert_commute less_irrefl less_trans singletonD)
  ultimately show ?thesis using out by simp
qed

text \<open>
  Claim C7: the status view prints a permutation of the rows it built, in the order of
  the specification: rows with a date by date, latest first, every row without a date
  after all rows with one, and the rows without a date by ascending display name.  In
  particular three rows with dates \<open>T1 > T2 > T3\<close> are printed in the order
  \<open>[T1, T2, T3]\<close>, in whatever order they arrive.
\<close>

theorem status_view_order:
  "mset (statusRows (stdout (runStatusCommand now arrivals json))) = mset (statusBuilt now arrivals)
   \<and> sorted_wrt statusOrder (statusRows (stdout (runStatusCommand now arrivals json)))
   \<and> (\<forall>r1 r2 r3.
         mset (statusBuilt now arrivals) = {#r1, r2, r3#}
         \<and> releasedAt r3 \<noteq> 0 \<and> releasedAt r3 < releasedAt r2 \<and> releasedAt r2 < releasedAt r1
         \<and> releasedAt r2 \<noteq> 0 \<and> releasedAt r1 \<noteq> 0
         \<longrightarrow> statusRows (stdout (runStatusCommand now arrivals json)) = [r1, r2, r3])"
proof (intro conjI allI impI)
  show m: "mset (statusRows (stdout (runStatusCommand now arrivals json))) = mset (statusBuilt now arrivals)"
    by (simp add: status_output mset_sortSlice)
  show s: "sorted_wrt statusOrder (statusRows (stdout (runStatusCommand now arrivals json)))"
    by (simp add: status_output status_sorted)
  fix r1 r2 r3
  assume a: "mset (statusBuilt now arrivals) = {#r1, r2, r3#}
         \<and> releasedAt r3 \<noteq> 0 \<and> releasedAt r3 < releasedAt r2 \<and> releasedAt r2 < releasedAt r1
         \<and> releasedAt r2 \<noteq> 0 \<and> releasedAt r1 \<noteq> 0"
  have "mset (statusRows (stdout (runStatusCommand now arrivals json))) = {#r1, r2, r3#}"
    using m a by simp
  then show "statusRows (stdout (runStatusCommand now arrivals json)) = [r1, r2, r3]"
    using s a by (intro three_sorted) simp_all
qed


theorem status_view_order_witness:
  "statusRows (stdout (runStatusCommand 36000000000000000
     [(\<lparr>SourceName = ''codex'', DisplayName = ''OpenAI Codex''\<rparr>,
       Inr [\<lparr>Version = ''0.76.0'', ReleasedAt = 35982000000000000, Source = [], Sections = [], Changes = []\<rparr>,
            \<lparr>Version = ''0.75.0'', ReleasedAt = 35722800000000000, Source = [], Sections = [], Changes = []\<rparr>],
       36000000000000000),
      (\<lparr>SourceName = ''opencode'', DisplayName = ''OpenCode''\<rparr>,
       Inr [\<lparr>Version = ''1.0.170'', ReleasedAt = 34790400000000000, Source = [], Sections = [], Changes = []\<rparr>],
       36000000000000000),
      (\<lparr>SourceName = ''gemini'', DisplayName = ''Gemini CLI''\<rparr>,
       Inr [\<lparr>Version = ''0.21.0'', ReleasedAt = 35998200000000000, Source = [], Sections = [], Changes = []\<rparr>],
       36000000000000000)]
     False))
   = [\<lparr>StatusName = ''Gemini CLI'', StatusVersion = ''0.21.0'', PreviousVersion = ''-'',
       UpdatedAgo = ''30m ago'', UpdatedRecently = True, AvgReleaseFreq = ''-'',
       releasedAt = 35998200000000000\<rparr>,
      \<lparr>StatusName = ''OpenAI Codex'', StatusVersion = ''0.76.0'', PreviousVersion = ''0.75.0'',
       UpdatedAgo = ''5h ago'', UpdatedRecently = True, AvgReleaseFreq = ''~3d'',
       releasedAt = 35982000000000000\<rparr>,
      \<lparr>StatusName = ''OpenCode'', StatusVersion = ''1.0.170'', PreviousVersion = ''-'',
       UpdatedAgo = ''2w ago'', UpdatedRecently = False, AvgReleaseFreq = ''-'',
       releasedAt = 34790400000000000\<rparr>]"
proof -
  define arrivals :: "(source \<times> (error + ChangelogEntry list) \<times> time) list" where "arrivals =
     [(\<lparr>SourceName = ''codex'', DisplayName = ''OpenAI Codex''\<rparr>,
       Inr [\<lparr>Version = ''0.76.0'', ReleasedAt = 35982000000000000, Source = [], Sections = [], Changes = []\<rparr>,
            \<lparr>Version = ''0.75.0'', ReleasedAt = 35722800000000000, Source = [], Sections = [], Changes = []\<rparr>],
       36000000000000000),
      (\<lparr>SourceName = ''opencode'', DisplayName = ''OpenCode''\<rparr>,
       Inr [\<lparr>Version = ''1.0.170'', ReleasedAt = 34790400000000000, Source = [], Sections = [], Changes = []\<rparr>],
       36000000000000000),
      (\<lparr>SourceName = ''gemini'', DisplayName = ''Gemini CLI''\<rparr>,
       Inr [\<lparr>Version = ''0.21.0'', ReleasedAt = 35998200000000000, Source = [], Sections = [], Changes = []\<rparr>],
       36000000000000000)]"
  define r1 where "r1 = \<lparr>StatusName = ''Gemini CLI'', StatusVersion = ''0.21.0'', PreviousVersion = ''-'',
       UpdatedAgo = ''30m ago'', UpdatedRecently = True, AvgReleaseFreq = ''-'',
       releasedAt = 35998200000000000\<rparr>"
  define r2 where "r2 = \<lparr>StatusName = ''OpenAI Codex'', StatusVersion = ''0.76.0'', PreviousVersion = ''0.75.0'',
       UpdatedAgo = ''5h ago'', UpdatedRecently = True, AvgReleaseFreq = ''~3d'',
       releasedAt = 35982000000000000\<rparr>"
  define r3 where "r3 = \<lparr>StatusName = ''OpenCode'', StatusVersion = ''1.0.170'', PreviousVersion = ''-'',
       UpdatedAgo = ''2w ago'', UpdatedRecently = False, AvgReleaseFreq = ''-'',
       releasedAt = 34790400000000000\<rparr>"
  have built: "statusBuilt 36000000000000000 arrivals = [r2, r3, r1]"
    unfolding arrivals_def r1_def r2_def r3_def by code_simp
  have h: "mset (statusBuilt 36000000000000000 arrivals) = {#r1, r2, r3#}
         \<and> releasedAt r3 \<noteq> 0 \<and> releasedAt r3 < releasedAt r2 \<and> releasedAt r2 < releasedAt r1
         \<and> releasedAt r2 \<noteq> 0 \<and> releasedAt r1 \<noteq> 0"
    unfolding built by (simp add: r1_def r2_def r3_def)
  from status_view_order [of 36000000000000000 arrivals False] h
  have "statusRows (stdout (runStatusCommand 36000000000000000 arrivals False)) = [r1, r2, r3]"
    by blast
  then show ?thesis unfolding arrivals_def r1_def r2_def r3_def .
qed

section \<open>Properties of the formatting of durations\<close>

lemma bitLength_nonpos: "n \<le> 0 \<Longrightarrow> bitLength n = 0"
  by (subst bitLength.simps) simp

lemma bitLength_pos: "0 < n \<Longrightarrow> bitLength n = Suc (bitLength (n div 2))"
  by (subst bitLength.simps) simp

lemma bitLength_lower: "0 < n \<Longrightarrow> 2 ^ (bitLength n - 1) \<le> n"
proof (induction n rule: bitLength.induct)
  case (1 n)
  have n: "bitLength n = Suc (bitLength (n div 2))"
    using "1.prems" by (rule bitLength_pos)
  show ?case
  proof (cases "n div 2 \<le> 0")
    case True
    then have "bitLength (n div 2) = 0" by (rule bitLength_nonpos)
    then show ?thesis using "1.prems" n by simp
  next
    case False
    then have pos: "0 < n div 2" by simp
    have ih: "2 ^ (bitLength (n div 2) - 1) \<le> n div 2"
      using "1.IH" "1.prems" pos by simp
    have "0 < bitLength (n div 2)"
      using bitLength_pos [OF pos] by simp
    then have "(2::int) ^ bitLength (n div 2) = 2 * 2 ^ (bitLength (n div 2) - 1)"
      by (simp add: power_eq_if)
    then have "(2::int) ^ (bitLength n - 1) = 2 * 2 ^ (bitLength (n div 2) - 1)"
      using n by simp
    also have "\<dots> \<le> 2 * (n div 2)" using ih by simp
    also have "\<dots> \<le> n" by simp
    finally show ?thesis .
  qed
qed

lemma int_div_less_iff:
  fixes a b n :: int
  assumes b: "0 < b"
  shows "(a div b < n) = (a < n * b)"
proof
  assume "a div b < n"
  then have "a div b + 1 \<le> n" by simp
  then have "b * (a div b + 1) \<le> b * n" using b by (simp add: mult_left_mono)
  then have le: "b * (a div b) + b \<le> b * n" by (simp add: distrib_left)
  have e: "b * (a div b) + a mod b = a" by simp
  have m: "a mod b < b" using b by simp
  have "a < b * n" using le e m by linarith
  then show "a < n * b" by (simp add: mult.commute)
next
  assume l: "a < n * b"
  show "a div b < n"
  proof (rule ccontr)
    assume "\<not> a div b < n"
    then have "n \<le> a div b" by simp
    then have le: "b * n \<le> b * (a div b)" using b by (simp add: mult_left_mono)
    have e: "b * (a div b) + a mod b = a" by simp
    have m: "0 \<le> a mod b" using b by simp
    have "b * n \<le> a" using le e m by linarith
    then show False using l by (simp add: mult.commute)
  qed
qed

lemma roundEven_lower:
  assumes q: "0 < q" and k: "k * q \<le> p"
  shows "k \<le> roundEven p q"
proof -
  have "k * q < (p div q + 1) * q"
  proof -
    have "p < (p div q + 1) * q" using int_div_less_iff [OF q, of p "p div q + 1"] by simp
    with k show ?thesis by simp
  qed
  then have "k < p div q + 1" using q by (simp add: mult_less_cancel_right)
  then have "k \<le> p div q" by simp
  moreover have "p div q \<le> roundEven p q" by (simp add: roundEven_def)
  ultimately show ?thesis by simp
qed

lemma roundEven_upper:
  assumes q: "0 < q" and k: "p \<le> k * q"
  shows "roundEven p q \<le> k"
proof (cases "p mod q = 0")
  case True
  then have r: "roundEven p q = p div q" using q by (simp add: roundEven_def)
  have "p div q < k + 1"
    using int_div_less_iff [OF q, of p "k + 1"] k q by (simp add: distrib_right)
  then show ?thesis using r by simp
next
  case False
  have m: "0 \<le> p mod q" using q by simp
  then have m': "0 < p mod q" using False by simp
  have e: "q * (p div q) + p mod q = p" by simp
  have "q * (p div q) < k * q" using e m' k by linarith
  then have "(p div q) * q < k * q" by (simp add: mult.commute)
  then have "p div q < k" using q by (simp add: mult_less_cancel_right)
  moreover have "roundEven p q \<le> p div q + 1" by (simp add: roundEven_def)
  ultimately show ?thesis by simp
qed

lemma small_exponent:
  fixes m :: int
  assumes m: "m \<le> 2 ^ 53" and t: "t < s"
  shows "m * 2 ^ t \<le> 2 ^ 52 * 2 ^ s"
proof -
  have "m * 2 ^ t \<le> 2 ^ 53 * (2::int) ^ t" using m by (simp add: mult_right_mono)
  also have "\<dots> = 2 ^ 52 * (2::int) ^ Suc t" by simp
  also have "\<dots> \<le> 2 ^ 52 * (2::int) ^ s"
    using t by (intro mult_left_mono power_increasing) simp_all
  finally show ?thesis .
qed

lemma large_quotient:
  assumes q: "0 < q" and s: "0 < bitLength (p * scale div q) - 53"
  shows "2 ^ 52 * 2 ^ (bitLength (p * scale div q) - 53) * q \<le> p * scale"
proof -
  define y where "y = p * scale div q"
  define s where "s = bitLength y - 53"
  have spos: "0 < s" using assms by (simp add: s_def y_def)
  have ypos: "0 < y"
  proof (rule ccontr)
    assume "\<not> 0 < y"
    then have "bitLength y = 0" by (intro bitLength_nonpos) simp
    then show False using spos by (simp add: s_def)
  qed
  have "bitLength y - 1 = 52 + s" using spos by (simp add: s_def)
  then have "(2::int) ^ (52 + s) \<le> y" using bitLength_lower [OF ypos] by simp
  then have "2 ^ (52 + s) * q \<le> y * q" using q by (simp add: mult_right_mono)
  moreover have "y * q \<le> p * scale"
  proof -
    have e: "q * (p * scale div q) + p * scale mod q = p * scale" by simp
    have "0 \<le> p * scale mod q" using q by simp
    with e have "q * (p * scale div q) \<le> p * scale" by linarith
    then show ?thesis by (simp add: y_def mult.commute)
  qed
  ultimately have "2 ^ (52 + s) * q \<le> p * scale" by simp
  then show ?thesis by (simp add: power_add s_def y_def)
qed

lemma round_lower:
  assumes q: "0 < q" and m: "m \<le> 2 ^ 53" and c: "m * 2 ^ t * q \<le> p * scale"
  shows "m * 2 ^ t \<le> roundFloat64 p q"
proof -
  define s where "s = bitLength (p * scale div q) - 53"
  have r: "roundFloat64 p q = roundEven (p * scale) (q * 2 ^ s) * 2 ^ s"
    by (simp add: roundFloat64_def s_def)
  have qs: "0 < q * 2 ^ s" using q by simp
  show ?thesis
  proof (cases "s \<le> t")
    case True
    have e: "(2::int) ^ t = 2 ^ (t - s) * 2 ^ s"
      using True by (simp add: power_add [symmetric])
    have "m * 2 ^ (t - s) * (q * 2 ^ s) = m * (2 ^ (t - s) * 2 ^ s) * q"
      by (simp only: ac_simps)
    then have "m * 2 ^ (t - s) * (q * 2 ^ s) = m * 2 ^ t * q"
      by (simp only: e [symmetric])
    then have "m * 2 ^ (t - s) * (q * 2 ^ s) \<le> p * scale" using c by linarith
    with qs have "m * 2 ^ (t - s) \<le> roundEven (p * scale) (q * 2 ^ s)"
      by (rule roundEven_lower)
    then have "m * 2 ^ (t - s) * 2 ^ s \<le> roundEven (p * scale) (q * 2 ^ s) * 2 ^ s"
      by (simp add: mult_right_mono)
    then show ?thesis by (simp add: r e mult.assoc)
  next
    case False
    then have ts: "t < s" by simp
    then have "0 < bitLength (p * scale div q) - 53" by (simp add: s_def)
    with q have "2 ^ 52 * 2 ^ s * q \<le> p * scale"
      unfolding s_def by (rule large_quotient)
    then have "2 ^ 52 * (q * 2 ^ s) \<le> p * scale" by (simp add: ac_simps)
    with qs have "2 ^ 52 \<le> roundEven (p * scale) (q * 2 ^ s)"
      by (rule roundEven_lower)
    then have B: "2 ^ 52 * 2 ^ s \<le> roundEven (p * scale) (q * 2 ^ s) * 2 ^ s"
      by (rule mult_right_mono) simp
    have "m * 2 ^ t \<le> 2 ^ 52 * 2 ^ s" using m ts by (rule small_exponent)
    from this B have "m * 2 ^ t \<le> roundEven (p * scale) (q * 2 ^ s) * 2 ^ s"
      by (rule order_trans)
    then show ?thesis unfolding r .
  qed
qed

lemma round_upper:
  assumes q: "0 < q" and m: "m \<le> 2 ^ 53" and c: "p * scale \<le> m * 2 ^ t * q"
  shows "roundFloat64 p q \<le> m * 2 ^ t"
proof -
  define s where "s = bitLength (p * scale div q) - 53"
  have r: "roundFloat64 p q = roundEven (p * scale) (q * 2 ^ s) * 2 ^ s"
    by (simp add: roundFloat64_def s_def)
  have qs: "0 < q * 2 ^ s" using q by simp
  show ?thesis
  proof (cases "s \<le> t")
    case True
    have e: "(2::int) ^ t = 2 ^ (t - s) * 2 ^ s"
      using True by (simp add: power_add [symmetric])
    have "m * 2 ^ (t - s) * (q * 2 ^ s) = m * (2 ^ (t - s) * 2 ^ s) * q"
      by (simp only: ac_simps)
    then have "m * 2 ^ (t - s) * (q * 2 ^ s) = m * 2 ^ t * q"
      by (simp only: e [symmetric])
    then have "p * scale \<le> m * 2 ^ (t - s) * (q * 2 ^ s)" using c by linarith
    with qs have "roundEven (p * scale) (q * 2 ^ s) \<le> m * 2 ^ (t - s)"
      by (rule roundEven_upper)
    then have "roundEven (p * scale) (q * 2 ^ s) * 2 ^ s \<le> m * 2 ^ (t - s) * 2 ^ s"
      by (simp add: mult_right_mono)
    then show ?thesis by (simp add: r e mult.assoc)
  next
    case False
    then have ts: "t < s" by simp
    then have "0 < bitLength (p * scale div q) - 53" by (simp add: s_def)
    with q have big: "2 ^ 52 * 2 ^ s * q \<le> p * scale"
      unfolding s_def by (rule large_quotient)
    have small: "m * 2 ^ t \<le> 2 ^ 52 * 2 ^ s" using m ts by (rule small_exponent)
    then have "m * 2 ^ t * q \<le> 2 ^ 52 * 2 ^ s * q" using q by (simp add: mult_right_mono)
    with big c have eq: "m * 2 ^ t * q = 2 ^ 52 * 2 ^ s * q" by linarith
    have qn: "q \<noteq> 0" using q by simp
    have eq': "m * 2 ^ t = 2 ^ 52 * 2 ^ s"
      using eq qn by (simp only: mult_cancel_right) simp
    have "p * scale \<le> 2 ^ 52 * 2 ^ s * q" using c eq by (simp only:)
    also have "\<dots> = 2 ^ 52 * (q * 2 ^ s)" by (simp only: ac_simps)
    finally have "p * scale \<le> 2 ^ 52 * (q * 2 ^ s)" .
    with qs have "roundEven (p * scale) (q * 2 ^ s) \<le> 2 ^ 52"
      by (rule roundEven_upper)
    then have "roundEven (p * scale) (q * 2 ^ s) * 2 ^ s \<le> 2 ^ 52 * 2 ^ s"
      by (rule mult_right_mono) simp
    then show ?thesis unfolding r eq' .
  qed
qed

lemma scale_pos: "0 < scale"
  by (simp add: scale_def)

lemma wholeUnits_lower:
  assumes unit: "0 < unit" and a: "0 \<le> a" and h: "a div unit \<le> 2 ^ 53"
  shows "a div unit \<le> wholeUnits a unit"
proof -
  define frac where "frac = roundFloat64 (a mod unit) unit"
  define total where "total = roundFloat64 (a div unit * scale + frac) scale"
  have "0 \<le> a mod unit * scale" using unit scale_pos by simp
  then have c0: "0 * 2 ^ 0 * unit \<le> a mod unit * scale" by simp
  have "0 * 2 ^ 0 \<le> roundFloat64 (a mod unit) unit"
    by (rule round_lower [OF unit _ c0]) simp
  then have f: "0 \<le> frac" by (simp add: frac_def)
  have "a div unit * scale * scale \<le> (a div unit * scale + frac) * scale"
    using f scale_pos by (simp add: mult_right_mono)
  then have "a div unit * 2 ^ 100 * scale \<le> (a div unit * scale + frac) * scale"
    by (simp add: scale_def)
  with scale_pos h have "a div unit * 2 ^ 100 \<le> total"
    unfolding total_def by (intro round_lower)
  then have "\<not> total < a div unit * scale" by (simp add: scale_def)
  then have "\<not> total div scale < a div unit"
    using int_div_less_iff [OF scale_pos, of total "a div unit"] by simp
  then show ?thesis by (simp add: wholeUnits_def total_def frac_def)
qed

lemma wholeUnits_upper:
  assumes unit: "0 < unit" and K: "unit \<le> K" and sc: "scale = K * 2 ^ t"
    and a: "0 \<le> a" and h: "(a div unit + 1) * K \<le> 2 ^ 53"
  shows "wholeUnits a unit \<le> a div unit"
proof -
  define frac where "frac = roundFloat64 (a mod unit) unit"
  define total where "total = roundFloat64 (a div unit * scale + frac) scale"
  define E :: int where "E = 2 ^ t"
  have E: "0 < E" by (simp add: E_def)
  have Kpos: "0 < K" using unit K by simp
  have hpos: "0 \<le> a div unit" using a unit by (simp add: pos_imp_zdiv_nonneg_iff)
  have K53: "K \<le> 2 ^ 53"
  proof -
    have "1 * K \<le> (a div unit + 1) * K" using hpos Kpos by (intro mult_right_mono) simp_all
    with h show ?thesis by simp
  qed
  have n: "a mod unit \<le> unit - 1" using unit by simp
  have "a mod unit * K \<le> (unit - 1) * K" using n Kpos by (intro mult_right_mono) simp_all
  also have "\<dots> = unit * K - K" by (simp add: algebra_simps)
  also have "\<dots> \<le> unit * K - unit" using K by simp
  also have "\<dots> = (K - 1) * unit" by (simp add: algebra_simps)
  finally have "a mod unit * K \<le> (K - 1) * unit" .
  then have "a mod unit * K * E \<le> (K - 1) * unit * E" using E by (intro mult_right_mono) simp_all
  then have c1: "a mod unit * scale \<le> (K - 1) * 2 ^ t * unit"
    by (simp add: sc E_def ac_simps)
  have "roundFloat64 (a mod unit) unit \<le> (K - 1) * 2 ^ t"
    by (rule round_upper [OF unit _ c1]) (use K53 in simp)
  then have f: "frac \<le> (K - 1) * E" by (simp add: frac_def E_def)
  have m53: "(a div unit + 1) * K - 1 \<le> 2 ^ 53" using h by simp
  have "a div unit * scale + frac \<le> a div unit * (K * E) + (K - 1) * E"
    using f by (simp add: sc E_def)
  also have "\<dots> = ((a div unit + 1) * K - 1) * E" by (simp add: algebra_simps)
  finally have "a div unit * scale + frac \<le> ((a div unit + 1) * K - 1) * E" .
  then have "(a div unit * scale + frac) * scale \<le> ((a div unit + 1) * K - 1) * E * scale"
    using scale_pos by (intro mult_right_mono) simp_all
  then have "(a div unit * scale + frac) * scale \<le> ((a div unit + 1) * K - 1) * 2 ^ t * scale"
    by (simp add: E_def)
  with scale_pos m53 have "total \<le> ((a div unit + 1) * K - 1) * 2 ^ t"
    unfolding total_def by (intro round_upper)
  also have "\<dots> = (a div unit + 1) * scale - E" by (simp add: sc E_def algebra_simps)
  also have "\<dots> < (a div unit + 1) * scale" using E by simp
  finally have "total < (a div unit + 1) * scale" .
  then have "total div scale < a div unit + 1"
    using int_div_less_iff [OF scale_pos, of total "a div unit + 1"] by simp
  then show ?thesis by (simp add: wholeUnits_def total_def frac_def)
qed

lemma wholeUnits_Hour:
  assumes "0 \<le> a" "a < 2048 * Hour"
  shows "wholeUnits a Hour = a div Hour"
proof (rule antisym)
  have d: "a div Hour < 2048"
    using assms by (simp add: int_div_less_iff Hour_def)
  show "wholeUnits a Hour \<le> a div Hour"
  proof (rule wholeUnits_upper [where K = "2 ^ 42" and t = 58])
    show "(a div Hour + 1) * 2 ^ 42 \<le> 2 ^ 53" using d by simp
  qed (use assms in \<open>simp_all add: Hour_def scale_def\<close>)
  show "a div Hour \<le> wholeUnits a Hour"
    using assms d by (intro wholeUnits_lower) (simp_all add: Hour_def)
qed

lemma wholeUnits_Minute:
  assumes "0 \<le> a" "a < 131072 * Minute"
  shows "wholeUnits a Minute = a div Minute"
proof (rule antisym)
  have d: "a div Minute < 131072"
    using assms by (simp add: int_div_less_iff Minute_def)
  show "wholeUnits a Minute \<le> a div Minute"
  proof (rule wholeUnits_upper [where K = "2 ^ 36" and t = 64])
    show "(a div Minute + 1) * 2 ^ 36 \<le> 2 ^ 53" using d by simp
  qed (use assms in \<open>simp_all add: Minute_def scale_def\<close>)
  show "a div Minute \<le> wholeUnits a Minute"
    using assms d by (intro wholeUnits_lower) (simp_all add: Minute_def)
qed

lemma Sub_range: "minDuration \<le> Sub t u \<and> Sub t u \<le> maxDuration"
  by (simp add: Sub_def minDuration_def maxDuration_def)

lemma wrap64_range: "minDuration \<le> wrap64 x \<and> wrap64 x \<le> maxDuration"
proof -
  have "0 \<le> (x + 2 ^ 63) mod 2 ^ 64" by simp
  moreover have "(x + 2 ^ 63) mod 2 ^ 64 < 2 ^ 64" by simp
  ultimately show ?thesis by (simp add: wrap64_def minDuration_def maxDuration_def)
qed

lemma totalDuration_range:
  "minDuration \<le> tot \<and> tot \<le> maxDuration \<Longrightarrow>
     minDuration \<le> totalDuration tot es \<and> totalDuration tot es \<le> maxDuration"
  by (induction tot es rule: totalDuration.induct) (simp_all add: wrap64_range)

lemma div_le_self_int:
  fixes a b :: int
  assumes "0 \<le> a" "0 < b"
  shows "a div b \<le> a"
proof (cases "a = 0")
  case True
  then show ?thesis by simp
next
  case False
  then have "0 < a" using assms by simp
  then show ?thesis by (rule int_div_le_self)
qed

lemma quot_between:
  assumes b: "0 < b"
  shows "(0 \<le> a \<longrightarrow> 0 \<le> quot a b \<and> quot a b \<le> a) \<and> (a < 0 \<longrightarrow> a \<le> quot a b \<and> quot a b \<le> 0)"
proof (cases "0 \<le> a")
  case True
  have "quot a b = a div b"
  proof (cases "a = 0")
    case True
    then show ?thesis by (simp add: quot_def)
  next
    case False
    then have "0 < a" using \<open>0 \<le> a\<close> by simp
    then show ?thesis using b by (simp add: quot_def)
  qed
  moreover have "0 \<le> a div b" using True b by (simp add: pos_imp_zdiv_nonneg_iff)
  moreover have "a div b \<le> a" using True b by (rule div_le_self_int)
  ultimately show ?thesis using True by simp
next
  case False
  then have a: "a < 0" by simp
  have "quot a b = - (\<bar>a\<bar> div b)" using a b by (simp add: quot_def)
  moreover have "0 \<le> \<bar>a\<bar> div b" using b by (simp add: pos_imp_zdiv_nonneg_iff)
  moreover have "\<bar>a\<bar> div b \<le> \<bar>a\<bar>" using b by (intro div_le_self_int) simp_all
  ultimately show ?thesis using a by simp
qed

lemma avgInterval_range:
  assumes "2 \<le> length (collectValid [] es)"
  shows "minDuration \<le> avgInterval es \<and> avgInterval es \<le> maxDuration"
proof -
  have t: "minDuration \<le> totalDuration 0 (collectValid [] es)
      \<and> totalDuration 0 (collectValid [] es) \<le> maxDuration"
    by (rule totalDuration_range) (simp add: minDuration_def maxDuration_def)
  have "0 < int (length (collectValid [] es)) - 1" using assms by simp
  from quot_between [OF this, of "totalDuration 0 (collectValid [] es)"] t
  show ?thesis by (auto simp: avgInterval_def minDuration_def maxDuration_def)
qed

lemma wholeUnits_nonneg:
  assumes "0 < unit" "0 \<le> a" "a div unit \<le> 2 ^ 53"
  shows "0 \<le> wholeUnits a unit"
proof -
  have "0 \<le> a div unit" using assms by (simp add: pos_imp_zdiv_nonneg_iff)
  also have "\<dots> \<le> wholeUnits a unit" using assms by (rule wholeUnits_lower)
  finally show ?thesis .
qed

lemma units_in_range:
  assumes "minDuration \<le> d" "d \<le> maxDuration"
  shows "\<bar>d\<bar> div Hour \<le> 2 ^ 53" "\<bar>d\<bar> div Minute \<le> 2 ^ 53"
proof -
  have a: "\<bar>d\<bar> \<le> 2 ^ 63" using assms by (simp add: minDuration_def maxDuration_def)
  have "\<bar>d\<bar> div Hour < 2 ^ 53"
    using a by (simp add: int_div_less_iff Hour_def)
  then show "\<bar>d\<bar> div Hour \<le> 2 ^ 53" by simp
  have "\<bar>d\<bar> div Minute < 2 ^ 53"
    using a by (simp add: int_div_less_iff Minute_def)
  then show "\<bar>d\<bar> div Minute \<le> 2 ^ 53" by simp
qed

lemma Hours_less:
  assumes n: "0 < n" "n \<le> 2048" and r: "minDuration \<le> d" "d \<le> maxDuration"
  shows "(Hours d < n) = (d < n * Hour)"
proof (cases "0 < d")
  case True
  have H: "0 < Hour" by (simp add: Hour_def)
  have eq: "Hours d = wholeUnits d Hour" using True by (simp add: Hours_def)
  show ?thesis
  proof (cases "d < n * Hour")
    case less: True
    have "n * Hour \<le> 2048 * Hour" using n H by (intro mult_right_mono) simp_all
    then have "d < 2048 * Hour" using less by simp
    then have "wholeUnits d Hour = d div Hour" using True by (intro wholeUnits_Hour) simp_all
    moreover have "d div Hour < n" using less H by (simp add: int_div_less_iff)
    ultimately show ?thesis using less eq by simp
  next
    case False
    then have "\<not> d div Hour < n" using H by (simp add: int_div_less_iff)
    moreover have "d div Hour \<le> wholeUnits d Hour"
      using units_in_range(1) [OF r] True H by (intro wholeUnits_lower) simp_all
    ultimately show ?thesis using False eq by simp
  qed
next
  case False
  have H: "0 < Hour" by (simp add: Hour_def)
  have "0 \<le> wholeUnits \<bar>d\<bar> Hour"
    using units_in_range(1) [OF r] H by (intro wholeUnits_nonneg) simp_all
  then have "Hours d \<le> 0" using False by (simp add: Hours_def sgn_if)
  moreover have "0 < n * Hour" using n H by simp
  ultimately show ?thesis using False n by simp
qed

lemma Minutes_less:
  assumes r: "minDuration \<le> d" "d \<le> maxDuration"
  shows "(Minutes d < 60) = (d < Hour)"
proof (cases "0 < d")
  case True
  have M: "0 < Minute" by (simp add: Minute_def)
  have eq: "Minutes d = wholeUnits d Minute" using True by (simp add: Minutes_def)
  show ?thesis
  proof (cases "d < Hour")
    case less: True
    then have "d < 131072 * Minute" by (simp add: Hour_def Minute_def)
    then have "wholeUnits d Minute = d div Minute" using True by (intro wholeUnits_Minute) simp_all
    moreover have "d div Minute < 60" using less by (simp add: int_div_less_iff Minute_def Hour_def)
    ultimately show ?thesis using less eq by simp
  next
    case False
    then have "\<not> d div Minute < 60" by (simp add: int_div_less_iff Minute_def Hour_def)
    moreover have "d div Minute \<le> wholeUnits d Minute"
      using units_in_range(2) [OF r] True M by (intro wholeUnits_lower) simp_all
    ultimately show ?thesis using False eq by simp
  qed
next
  case False
  have M: "0 < Minute" by (simp add: Minute_def)
  have "0 \<le> wholeUnits \<bar>d\<bar> Minute"
    using units_in_range(2) [OF r] M by (intro wholeUnits_nonneg) simp_all
  then have "Minutes d \<le> 0" using False by (simp add: Minutes_def sgn_if)
  moreover have "0 < Hour" by (simp add: Hour_def)
  ultimately show ?thesis using False by simp
qed

lemma Hours_exact: "\<bar>d\<bar> < 2048 * Hour \<Longrightarrow> Hours d = quot d Hour"
proof -
  assume "\<bar>d\<bar> < 2048 * Hour"
  then have "wholeUnits \<bar>d\<bar> Hour = \<bar>d\<bar> div Hour" by (intro wholeUnits_Hour) simp_all
  then show ?thesis by (simp add: Hours_def quot_def Hour_def)
qed

lemma Minutes_exact: "\<bar>d\<bar> < 131072 * Minute \<Longrightarrow> Minutes d = quot d Minute"
proof -
  assume "\<bar>d\<bar> < 131072 * Minute"
  then have "wholeUnits \<bar>d\<bar> Minute = \<bar>d\<bar> div Minute" by (intro wholeUnits_Minute) simp_all
  then show ?thesis by (simp add: Minutes_def quot_def Minute_def)
qed

lemma quot_less_iff: "0 < b \<Longrightarrow> 0 < n \<Longrightarrow> (quot a b < n) = (a < n * b)"
proof (cases "0 \<le> a")
  case True
  assume b: "0 < b" and n: "0 < n"
  have "quot a b = a div b"
  proof (cases "a = 0")
    case True
    then show ?thesis by (simp add: quot_def)
  next
    case False
    then have "0 < a" using \<open>0 \<le> a\<close> by simp
    then show ?thesis using b by (simp add: quot_def)
  qed
  moreover have "(a div b < n) = (a < n * b)"
    using b by (rule int_div_less_iff)
  ultimately show ?thesis by simp
next
  case False
  assume b: "0 < b" and n: "0 < n"
  have a: "a < 0" using False by simp
  have "quot a b = - (\<bar>a\<bar> div b)" using a b by (simp add: quot_def)
  moreover have "0 \<le> \<bar>a\<bar> div b" using b by (simp add: pos_imp_zdiv_nonneg_iff)
  ultimately have "quot a b < n" using n by linarith
  moreover have "a < n * b" using a b n by (smt (verit) mult_pos_pos)
  ultimately show ?thesis by simp
qed

lemma days_less:
  assumes "0 < n" "n \<le> 85" "minDuration \<le> d" "d \<le> maxDuration"
  shows "(quot (Hours d) 24 < n) = (d < n * 24 * Hour)"
proof -
  have "(quot (Hours d) 24 < n) = (Hours d < n * 24)"
    using assms by (intro quot_less_iff) simp_all
  also have "\<dots> = (d < n * 24 * Hour)"
    using assms by (intro Hours_less) simp_all
  finally show ?thesis .
qed

lemma weeks_less:
  assumes "0 < n" "n \<le> 12" "minDuration \<le> d" "d \<le> maxDuration"
  shows "(quot (quot (Hours d) 24) 7 < n) = (d < n * 7 * 24 * Hour)"
proof -
  have "(quot (quot (Hours d) 24) 7 < n) = (quot (Hours d) 24 < n * 7)"
    using assms by (intro quot_less_iff) simp_all
  also have "\<dots> = (d < n * 7 * 24 * Hour)"
    using assms by (intro days_less) simp_all
  finally show ?thesis .
qed

lemma formatRelativeTime_buckets:
  assumes "t \<noteq> 0"
  shows "formatRelativeTime now t =
      (if Sub now t < Hour then showInt (Minutes (Sub now t)) @ ''m ago''
       else if Sub now t < 24 * Hour then showInt (Hours (Sub now t)) @ ''h ago''
       else if Sub now t < 7 * 24 * Hour then showInt (quot (Hours (Sub now t)) 24) @ ''d ago''
       else if Sub now t < 4 * 7 * 24 * Hour
         then showInt (quot (quot (Hours (Sub now t)) 24) 7) @ ''w ago''
       else showInt (quot (quot (Hours (Sub now t)) 24) 30) @ ''mo ago'')"
proof -
  note r = Sub_range [of now t]
  have m: "(Minutes (Sub now t) < 60) = (Sub now t < Hour)"
    using r by (intro Minutes_less) simp_all
  have h: "(Hours (Sub now t) < 24) = (Sub now t < 24 * Hour)"
    using r by (intro Hours_less) simp_all
  have d: "(quot (Hours (Sub now t)) 24 < 7) = (Sub now t < 7 * 24 * Hour)"
    using r by (intro days_less) simp_all
  have w: "(quot (quot (Hours (Sub now t)) 24) 7 < 4) = (Sub now t < 4 * 7 * 24 * Hour)"
    using r by (intro weeks_less) simp_all
  show ?thesis
    using assms by (simp add: formatRelativeTime_def IsZero_def Let_def m h d w)
qed

lemma formatFreq_buckets:
  assumes r: "minDuration \<le> d" "d \<le> maxDuration"
  shows "formatFreq d =
      (if d < 24 * Hour then ''~'' @ showInt (Hours d) @ ''h''
       else if d < 7 * 24 * Hour then ''~'' @ showInt (quot (Hours d) 24) @ ''d''
       else if d < 4 * 7 * 24 * Hour then ''~'' @ showInt (quot (quot (Hours d) 24) 7) @ ''w''
       else ''~'' @ showInt (quot (quot (Hours d) 24) 30) @ ''mo'')"
proof -
  have d1: "(quot (Hours d) 24 < 1) = (d < 24 * Hour)"
    using days_less [of 1 d] r by simp
  have d7: "(quot (Hours d) 24 < 7) = (d < 7 * 24 * Hour)"
    using r by (intro days_less) simp_all
  have w: "(quot (quot (Hours d) 24) 7 < 4) = (d < 4 * 7 * 24 * Hour)"
    using r by (intro weeks_less) simp_all
  show ?thesis by (simp add: formatFreq_def Let_def d1 d7 w)
qed

text \<open>
  The hours of a duration are rounded as \<^verbatim>\<open>float64\<close> values are: one nanosecond
  below 180 days, \<^verbatim>\<open>d.Hours()\<close> is 4320, and the relative time and the cadence are
  given as 6 months, not 5.
\<close>

lemma float_rounding_of_Hours:
  "Hours 15551999999999999 = 4320
   \<and> quot 15551999999999999 Hour = 4319
   \<and> Minutes (- 18143999999999999) = - 302400
   \<and> formatRelativeTime 36000000000000000 (36000000000000000 - 15551999999999999) = ''6mo ago''
   \<and> calculateAvgReleaseFreq
        [\<lparr>Version = ''1.1.0'', ReleasedAt = 36000000000000000, Source = [], Sections = [], Changes = []\<rparr>,
         \<lparr>Version = ''1.0.0'', ReleasedAt = 36000000000000000 - 15551999999999999, Source = [],
            Sections = [], Changes = []\<rparr>]
      = ''~6mo''"
  by code_simp

text \<open>
  Claim C6, as the code has it: the release cadence has no bucket of minutes.  Two
  releases 30 minutes apart have the cadence \<^verbatim>\<open>~0h\<close>, where the relative time of the
  same duration is \<^verbatim>\<open>30m ago\<close>.
\<close>

theorem cadence_has_minutes_bucket_counterexample:
  "calculateAvgReleaseFreq
     [\<lparr>Version = ''1.1.0'', ReleasedAt = 7200000000000, Source = [], Sections = [], Changes = []\<rparr>,
      \<lparr>Version = ''1.0.0'', ReleasedAt = 5400000000000, Source = [], Sections = [], Changes = []\<rparr>]
     = ''~0h''
   \<and> formatRelativeTime 7200000000000 5400000000000 = ''30m ago''"
  by code_simp

text \<open>
  Claim C6, amended: \<^verbatim>\<open>formatRelativeTime\<close> formats an elapsed duration \<open>d\<close> below one
  hour in minutes, below 24 hours in hours, below 7 days in days, below 4 weeks in weeks,
  and in months of 30 days otherwise.  The release cadence has the same boundaries at 24
  hours, 7 days and 4 weeks, and no bucket of minutes: an average below 24 hours, also
  one below an hour, is given in whole hours; it is written as a magnitude,
  \<^verbatim>\<open>~3d\<close>, and is the formatted average of the intervals when there are at least two
  entries with a date.  The numbers are the whole parts of \<^verbatim>\<open>d.Minutes()\<close> and
  \<^verbatim>\<open>d.Hours()\<close>, which are \<^verbatim>\<open>float64\<close> values: they are the quotients of \<open>d\<close> by
  a minute and an hour, rounded toward zero, for a duration below 131072 minutes and
  2048 hours, and can be one more beyond (\<open>float_rounding_of_Hours\<close>).
\<close>

theorem duration_buckets:
  "(t \<noteq> 0 \<and> Sub now t < Hour \<longrightarrow>
      formatRelativeTime now t = showInt (Minutes (Sub now t)) @ ''m ago'')
   \<and> (t \<noteq> 0 \<and> Hour \<le> Sub now t \<and> Sub now t < 24 * Hour \<longrightarrow>
      formatRelativeTime now t = showInt (Hours (Sub now t)) @ ''h ago'')
   \<and> (t \<noteq> 0 \<and> 24 * Hour \<le> Sub now t \<and> Sub now t < 7 * 24 * Hour \<longrightarrow>
      formatRelativeTime now t = showInt (quot (Hours (Sub now t)) 24) @ ''d ago'')
   \<and> (t \<noteq> 0 \<and> 7 * 24 * Hour \<le> Sub now t \<and> Sub now t < 4 * 7 * 24 * Hour \<longrightarrow>
      formatRelativeTime now t = showInt (quot (quot (Hours (Sub now t)) 24) 7) @ ''w ago'')
   \<and> (t \<noteq> 0 \<and> 4 * 7 * 24 * Hour \<le> Sub now t \<longrightarrow>
      formatRelativeTime now t = showInt (quot (quot (Hours (Sub now t)) 24) 30) @ ''mo ago'')
   \<and> (length (collectValid [] entries) < 2 \<longrightarrow> calculateAvgReleaseFreq entries = ''-'')
   \<and> (2 \<le> length (collectValid [] entries) \<and> avgInterval entries < 24 * Hour \<longrightarrow>
      calculateAvgReleaseFreq entries = ''~'' @ showInt (Hours (avgInterval entries)) @ ''h'')
   \<and> (2 \<le> length (collectValid [] entries) \<and> 24 * Hour \<le> avgInterval entries
        \<and> avgInterval entries < 7 * 24 * Hour \<longrightarrow>
      calculateAvgReleaseFreq entries
        = ''~'' @ showInt (quot (Hours (avgInterval entries)) 24) @ ''d'')
   \<and> (2 \<le> length (collectValid [] entries) \<and> 7 * 24 * Hour \<le> avgInterval entries
        \<and> avgInterval entries < 4 * 7 * 24 * Hour \<longrightarrow>
      calculateAvgReleaseFreq entries
        = ''~'' @ showInt (quot (quot (Hours (avgInterval entries)) 24) 7) @ ''w'')
   \<and> (2 \<le> length (collectValid [] entries) \<and> 4 * 7 * 24 * Hour \<le> avgInterval entries \<longrightarrow>
      calculateAvgReleaseFreq entries
        = ''~'' @ showInt (quot (quot (Hours (avgInterval entries)) 24) 30) @ ''mo'')
   \<and> (\<bar>d\<bar> < 2048 * Hour \<longrightarrow> Hours d = quot d Hour)
   \<and> (\<bar>d\<bar> < 131072 * Minute \<longrightarrow> Minutes d = quot d Minute)"
proof -
  have H: "0 < Hour" by (simp add: Hour_def)
  have o: "Hour \<le> 24 * Hour" "24 * Hour \<le> 7 * 24 * Hour" "7 * 24 * Hour \<le> 4 * 7 * 24 * Hour"
    using H by simp_all
  have rel: "t \<noteq> 0 \<Longrightarrow> formatRelativeTime now t =
      (if Sub now t < Hour then showInt (Minutes (Sub now t)) @ ''m ago''
       else if Sub now t < 24 * Hour then showInt (Hours (Sub now t)) @ ''h ago''
       else if Sub now t < 7 * 24 * Hour then showInt (quot (Hours (Sub now t)) 24) @ ''d ago''
       else if Sub now t < 4 * 7 * 24 * Hour
         then showInt (quot (quot (Hours (Sub now t)) 24) 7) @ ''w ago''
       else showInt (quot (quot (Hours (Sub now t)) 24) 30) @ ''mo ago'')"
    by (rule formatRelativeTime_buckets)
  have short: "length (collectValid [] entries) < 2 \<Longrightarrow> calculateAvgReleaseFreq entries = ''-''"
    by (simp add: calculateAvgReleaseFreq_def Let_def)
  have freq: "calculateAvgReleaseFreq entries =
      (if avgInterval entries < 24 * Hour
         then ''~'' @ showInt (Hours (avgInterval entries)) @ ''h''
       else if avgInterval entries < 7 * 24 * Hour
         then ''~'' @ showInt (quot (Hours (avgInterval entries)) 24) @ ''d''
       else if avgInterval entries < 4 * 7 * 24 * Hour
         then ''~'' @ showInt (quot (quot (Hours (avgInterval entries)) 24) 7) @ ''w''
       else ''~'' @ showInt (quot (quot (Hours (avgInterval entries)) 24) 30) @ ''mo'')"
    if l: "2 \<le> length (collectValid [] entries)"
  proof -
    have "calculateAvgReleaseFreq entries = formatFreq (avgInterval entries)"
      using l by (simp add: calculateAvgReleaseFreq_def Let_def avgInterval_def)
    moreover note avgInterval_range [OF l]
    ultimately show ?thesis by (simp add: formatFreq_buckets)
  qed
  show ?thesis
    using o short Hours_exact [of d] Minutes_exact [of d] by (auto simp: rel freq)
qed

theorem duration_buckets_witness:
  "((35998200000000000::int) \<noteq> 0 \<and> Sub 36000000000000000 35998200000000000 < Hour)
   \<and> formatRelativeTime 36000000000000000 35998200000000000 = ''30m ago''
   \<and> ((35982000000000000::int) \<noteq> 0 \<and> Hour \<le> Sub 36000000000000000 35982000000000000 \<and> Sub 36000000000000000 35982000000000000 < 24 * Hour)
   \<and> formatRelativeTime 36000000000000000 35982000000000000 = ''5h ago''
   \<and> ((35740800000000000::int) \<noteq> 0 \<and> 24 * Hour \<le> Sub 36000000000000000 35740800000000000 \<and> Sub 36000000000000000 35740800000000000 < 7 * 24 * Hour)
   \<and> formatRelativeTime 36000000000000000 35740800000000000 = ''3d ago''
   \<and> ((34790400000000000::int) \<noteq> 0 \<and> 7 * 24 * Hour \<le> Sub 36000000000000000 34790400000000000 \<and> Sub 36000000000000000 34790400000000000 < 4 * 7 * 24 * Hour)
   \<and> formatRelativeTime 36000000000000000 34790400000000000 = ''2w ago''
   \<and> ((28224000000000000::int) \<noteq> 0 \<and> 4 * 7 * 24 * Hour \<le> Sub 36000000000000000 28224000000000000)
   \<and> formatRelativeTime 36000000000000000 28224000000000000 = ''3mo ago''
   \<and> (2 \<le> length (collectValid [] 
     [\<lparr>Version = ''1.1.0'', ReleasedAt = 36000000000000000, Source = [], Sections = [], Changes = []\<rparr>,
      \<lparr>Version = ''1.0.0'', ReleasedAt = 35998200000000000, Source = [], Sections = [], Changes = []\<rparr>]) \<and> avgInterval 
     [\<lparr>Version = ''1.1.0'', ReleasedAt = 36000000000000000, Source = [], Sections = [], Changes = []\<rparr>,
      \<lparr>Version = ''1.0.0'', ReleasedAt = 35998200000000000, Source = [], Sections = [], Changes = []\<rparr>] < 24 * Hour)
   \<and> calculateAvgReleaseFreq 
     [\<lparr>Version = ''1.1.0'', ReleasedAt = 36000000000000000, Source = [], Sections = [], Changes = []\<rparr>,
      \<lparr>Version = ''1.0.0'', ReleasedAt = 35998200000000000, Source = [], Sections = [], Changes = []\<rparr>] = ''~0h''
   \<and> (2 \<le> length (collectValid [] 
     [\<lparr>Version = ''1.1.0'', ReleasedAt = 36000000000000000, Source = [], Sections = [], Changes = []\<rparr>,
      \<lparr>Version = ''1.0.0'', ReleasedAt = 35740800000000000, Source = [], Sections = [], Changes = []\<rparr>]) \<and> 24 * Hour \<le> avgInterval 
     [\<lparr>Version = ''1.1.0'', ReleasedAt = 36000000000000000, Source = [], Sections = [], Changes = []\<rparr>,
      \<lparr>Version = ''1.0.0'', ReleasedAt = 35740800000000000, Source = [], Sections = [], Changes = []\<rparr>] \<and> avgInterval 
     [\<lparr>Version = ''1.1.0'', ReleasedAt = 36000000000000000, Source = [], Sections = [], Changes = []\<rparr>,
      \<lparr>Version = ''1.0.0'', ReleasedAt = 35740800000000000, Source = [], Sections = [], Changes = []\<rparr>] < 7 * 24 * Hour)
   \<and> calculateAvgReleaseFreq 
     [\<lparr>Version = ''1.1.0'', ReleasedAt = 36000000000000000, Source = [], Sections = [], Changes = []\<rparr>,
      \<lparr>Version = ''1.0.0'', ReleasedAt = 35740800000000000, Source = [], Sections = [], Changes = []\<rparr>] = ''~3d''
   \<and> (2 \<le> length (collectValid [] 
     [\<lparr>Version = ''1.1.0'', ReleasedAt = 36000000000000000, Source = [], Sections = [], Changes = []\<rparr>,
      \<lparr>Version = ''1.0.0'', ReleasedAt = 34790400000000000, Source = [], Sections = [], Changes = []\<rparr>]) \<and> 7 * 24 * Hour \<le> avgInterval 
     [\<lparr>Version = ''1.1.0'', ReleasedAt = 36000000000000000, Source = [], Sections = [], Changes = []\<rparr>,
      \<lparr>Version = ''1.0.0'', ReleasedAt = 34790400000000000, Source = [], Sections = [], Changes = []\<rparr>] \<and> avgInterval 
     [\<lparr>Version = ''1.1.0'', ReleasedAt = 36000000000000000, Source = [], Sections = [], Changes = []\<rparr>,
      \<lparr>Version = ''1.0.0'', ReleasedAt = 34790400000000000, Source = [], Sections = [], Changes = []\<rparr>] < 4 * 7 * 24 * Hour)
   \<and> calculateAvgReleaseFreq 
     [\<lparr>Version = ''1.1.0'', ReleasedAt = 36000000000000000, Source = [], Sections = [], Changes = []\<rparr>,
      \<lparr>Version = ''1.0.0'', ReleasedAt = 34790400000000000, Source = [], Sections = [], Changes = []\<rparr>] = ''~2w''
   \<and> (2 \<le> length (collectValid [] 
     [\<lparr>Version = ''1.1.0'', ReleasedAt = 36000000000000000, Source = [], Sections = [], Changes = []\<rparr>,
      \<lparr>Version = ''1.0.0'', ReleasedAt = 28224000000000000, Source = [], Sections = [], Changes = []\<rparr>]) \<and> 4 * 7 * 24 * Hour \<le> avgInterval 
     [\<lparr>Version = ''1.1.0'', ReleasedAt = 36000000000000000, Source = [], Sections = [], Changes = []\<rparr>,
      \<lparr>Version = ''1.0.0'', ReleasedAt = 28224000000000000, Source = [], Sections = [], Changes = []\<rparr>])
   \<and> calculateAvgReleaseFreq 
     [\<lparr>Version = ''1.1.0'', ReleasedAt = 36000000000000000, Source = [], Sections = [], Changes = []\<rparr>,
      \<lparr>Version = ''1.0.0'', ReleasedAt = 28224000000000000, Source = [], Sections = [], Changes = []\<rparr>] = ''~3mo''"
proof -
  have h1: "(35998200000000000::int) \<noteq> 0 \<and> Sub 36000000000000000 35998200000000000 < Hour" by code_simp
  have v1: "showInt (Minutes (Sub 36000000000000000 35998200000000000)) @ ''m ago'' = ''30m ago''" by code_simp
  from duration_buckets [of 35998200000000000 36000000000000000] h1
  have "formatRelativeTime 36000000000000000 35998200000000000 = showInt (Minutes (Sub 36000000000000000 35998200000000000)) @ ''m ago''" by blast
  with v1 have c1: "formatRelativeTime 36000000000000000 35998200000000000 = ''30m ago''" by (simp only:)
  have h2: "(35982000000000000::int) \<noteq> 0 \<and> Hour \<le> Sub 36000000000000000 35982000000000000 \<and> Sub 36000000000000000 35982000000000000 < 24 * Hour" by code_simp
  have v2: "showInt (Hours (Sub 36000000000000000 35982000000000000)) @ ''h ago'' = ''5h ago''" by code_simp
  from duration_buckets [of 35982000000000000 36000000000000000] h2
  have "formatRelativeTime 36000000000000000 35982000000000000 = showInt (Hours (Sub 36000000000000000 35982000000000000)) @ ''h ago''" by blast
  with v2 have c2: "formatRelativeTime 36000000000000000 35982000000000000 = ''5h ago''" by (simp only:)
  have h3: "(35740800000000000::int) \<noteq> 0 \<and> 24 * Hour \<le> Sub 36000000000000000 35740800000000000 \<and> Sub 36000000000000000 35740800000000000 < 7 * 24 * Hour" by code_simp
  have v3: "showInt (quot (Hours (Sub 36000000000000000 35740800000000000)) 24) @ ''d ago'' = ''3d ago''" by code_simp
  from duration_buckets [of 35740800000000000 36000000000000000] h3
  have "formatRelativeTime 36000000000000000 35740800000000000 = showInt (quot (Hours (Sub 36000000000000000 35740800000000000)) 24) @ ''d ago''" by blast
  with v3 have c3: "formatRelativeTime 36000000000000000 35740800000000000 = ''3d ago''" by (simp only:)
  have h4: "(34790400000000000::int) \<noteq> 0 \<and> 7 * 24 * Hour \<le> Sub 36000000000000000 34790400000000000 \<and> Sub 36000000000000000 34790400000000000 < 4 * 7 * 24 * Hour" by code_simp
  have v4: "showInt (quot (quot (Hours (Sub 36000000000000000 34790400000000000)) 24) 7) @ ''w ago'' = ''2w ago''" by code_simp
  from duration_buckets [of 34790400000000000 36000000000000000] h4
  have "formatRelativeTime 36000000000000000 34790400000000000 = showInt (quot (quot (Hours (Sub 36000000000000000 34790400000000000)) 24) 7) @ ''w ago''" by blast
  with v4 have c4: "formatRelativeTime 36000000000000000 34790400000000000 = ''2w ago''" by (simp only:)
  have h5: "(28224000000000000::int) \<noteq> 0 \<and> 4 * 7 * 24 * Hour \<le> Sub 36000000000000000 28224000000000000" by code_simp
  have v5: "showInt (quot (quot (Hours (Sub 36000000000000000 28224000000000000)) 24) 30) @ ''mo ago'' = ''3mo ago''" by code_simp
  from duration_buckets [of 28224000000000000 36000000000000000] h5
  have "formatRelativeTime 36000000000000000 28224000000000000 = showInt (quot (quot (Hours (Sub 36000000000000000 28224000000000000)) 24) 30) @ ''mo ago''" by blast
  with v5 have c5: "formatRelativeTime 36000000000000000 28224000000000000 = ''3mo ago''" by (simp only:)
  have h6: "2 \<le> length (collectValid [] 
     [\<lparr>Version = ''1.1.0'', ReleasedAt = 36000000000000000, Source = [], Sections = [], Changes = []\<rparr>,
      \<lparr>Version = ''1.0.0'', ReleasedAt = 35998200000000000, Source = [], Sections = [], Changes = []\<rparr>]) \<and> avgInterval 
     [\<lparr>Version = ''1.1.0'', ReleasedAt = 36000000000000000, Source = [], Sections = [], Changes = []\<rparr>,
      \<lparr>Version = ''1.0.0'', ReleasedAt = 35998200000000000, Source = [], Sections = [], Changes = []\<rparr>] < 24 * Hour" by code_simp
  have v6: "''~'' @ showInt (Hours (avgInterval 
     [\<lparr>Version = ''1.1.0'', ReleasedAt = 36000000000000000, Source = [], Sections = [], Changes = []\<rparr>,
      \<lparr>Version = ''1.0.0'', ReleasedAt = 35998200000000000, Source = [], Sections = [], Changes = []\<rparr>])) @ ''h'' = ''~0h''" by code_simp
  from duration_buckets [of _ _ "
     [\<lparr>Version = ''1.1.0'', ReleasedAt = 36000000000000000, Source = [], Sections = [], Changes = []\<rparr>,
      \<lparr>Version = ''1.0.0'', ReleasedAt = 35998200000000000, Source = [], Sections = [], Changes = []\<rparr>]"] h6
  have "calculateAvgReleaseFreq 
     [\<lparr>Version = ''1.1.0'', ReleasedAt = 36000000000000000, Source = [], Sections = [], Changes = []\<rparr>,
      \<lparr>Version = ''1.0.0'', ReleasedAt = 35998200000000000, Source = [], Sections = [], Changes = []\<rparr>] = ''~'' @ showInt (Hours (avgInterval 
     [\<lparr>Version = ''1.1.0'', ReleasedAt = 36000000000000000, Source = [], Sections = [], Changes = []\<rparr>,
      \<lparr>Version = ''1.0.0'', ReleasedAt = 35998200000000000, Source = [], Sections = [], Changes = []\<rparr>])) @ ''h''" by blast
  with v6 have c6: "calculateAvgReleaseFreq 
     [\<lparr>Version = ''1.1.0'', ReleasedAt = 36000000000000000, Source = [], Sections = [], Changes = []\<rparr>,
      \<lparr>Version = ''1.0.0'', ReleasedAt = 35998200000000000, Source = [], Sections = [], Changes = []\<rparr>] = ''~0h''" by (simp only:)
  have h7: "2 \<le> length (collectValid [] 
     [\<lparr>Version = ''1.1.0'', ReleasedAt = 36000000000000000, Source = [], Sections = [], Changes = []\<rparr>,
      \<lparr>Version = ''1.0.0'', ReleasedAt = 35740800000000000, Source = [], Sections = [], Changes = []\<rparr>]) \<and> 24 * Hour \<le> avgInterval 
     [\<lparr>Version = ''1.1.0'', ReleasedAt = 36000000000000000, Source = [], Sections = [], Changes = []\<rparr>,
      \<lparr>Version = ''1.0.0'', ReleasedAt = 35740800000000000, Source = [], Sections = [], Changes = []\<rparr>] \<and> avgInterval 
     [\<lparr>Version = ''1.1.0'', ReleasedAt = 36000000000000000, Source = [], Sections = [], Changes = []\<rparr>,
      \<lparr>Version = ''1.0.0'', ReleasedAt = 35740800000000000, Source = [], Sections = [], Changes = []\<rparr>] < 7 * 24 * Hour" by code_simp
  have v7: "''~'' @ showInt (quot (Hours (avgInterval 
     [\<lparr>Version = ''1.1.0'', ReleasedAt = 36000000000000000, Source = [], Sections = [], Changes = []\<rparr>,
      \<lparr>Version = ''1.0.0'', ReleasedAt = 35740800000000000, Source = [], Sections = [], Changes = []\<rparr>])) 24) @ ''d'' = ''~3d''" by code_simp
  from duration_buckets [of _ _ "
     [\<lparr>Version = ''1.1.0'', ReleasedAt = 36000000000000000, Source = [], Sections = [], Changes = []\<rparr>,
      \<lparr>Version = ''1.0.0'', ReleasedAt = 35740800000000000, Source = [], Sections = [], Changes = []\<rparr>]"] h7
  have "calculateAvgReleaseFreq 
     [\<lparr>Version = ''1.1.0'', ReleasedAt = 36000000000000000, Source = [], Sections = [], Changes = []\<rparr>,
      \<lparr>Version = ''1.0.0'', ReleasedAt = 35740800000000000, Source = [], Sections = [], Changes = []\<rparr>] = ''~'' @ showInt (quot (Hours (avgInterval 
     [\<lparr>Version = ''1.1.0'', ReleasedAt = 36000000000000000, Source = [], Sections = [], Changes = []\<rparr>,
      \<lparr>Version = ''1.0.0'', ReleasedAt = 35740800000000000, Source = [], Sections = [], Changes = []\<rparr>])) 24) @ ''d''" by blast
  with v7 have c7: "calculateAvgReleaseFreq 
     [\<lparr>Version = ''1.1.0'', ReleasedAt = 36000000000000000, Source = [], Sections = [], Changes = []\<rparr>,
      \<lparr>Version = ''1.0.0'', ReleasedAt = 35740800000000000, Source = [], Sections = [], Changes = []\<rparr>] = ''~3d''" by (simp only:)
  have h8: "2 \<le> length (collectValid [] 
     [\<lparr>Version = ''1.1.0'', ReleasedAt = 36000000000000000, Source = [], Sections = [], Changes = []\<rparr>,
      \<lparr>Version = ''1.0.0'', ReleasedAt = 34790400000000000, Source = [], Sections = [], Changes = []\<rparr>]) \<and> 7 * 24 * Hour \<le> avgInterval 
     [\<lparr>Version = ''1.1.0'', ReleasedAt = 36000000000000000, Source = [], Sections = [], Changes = []\<rparr>,
      \<lparr>Version = ''1.0.0'', ReleasedAt = 34790400000000000, Source = [], Sections = [], Changes = []\<rparr>] \<and> avgInterval 
     [\<lparr>Version = ''1.1.0'', ReleasedAt = 36000000000000000, Source = [], Sections = [], Changes = []\<rparr>,
      \<lparr>Version = ''1.0.0'', ReleasedAt = 34790400000000000, Source = [], Sections = [], Changes = []\<rparr>] < 4 * 7 * 24 * Hour" by code_simp
  have v8: "''~'' @ showInt (quot (quot (Hours (avgInterval 
     [\<lparr>Version = ''1.1.0'', ReleasedAt = 36000000000000000, Source = [], Sections = [], Changes = []\<rparr>,
      \<lparr>Version = ''1.0.0'', ReleasedAt = 34790400000000000, Source = [], Sections = [], Changes = []\<rparr>])) 24) 7) @ ''w'' = ''~2w''" by code_simp
  from duration_buckets [of _ _ "
     [\<lparr>Version = ''1.1.0'', ReleasedAt = 36000000000000000, Source = [], Sections = [], Changes = []\<rparr>,
      \<lparr>Version = ''1.0.0'', ReleasedAt = 34790400000000000, Source = [], Sections = [], Changes = []\<rparr>]"] h8
  have "calculateAvgReleaseFreq 
     [\<lparr>Version = ''1.1.0'', ReleasedAt = 36000000000000000, Source = [], Sections = [], Changes = []\<rparr>,
      \<lparr>Version = ''1.0.0'', ReleasedAt = 34790400000000000, Source = [], Sections = [], Changes = []\<rparr>] = ''~'' @ showInt (quot (quot (Hours (avgInterval 
     [\<lparr>Version = ''1.1.0'', ReleasedAt = 36000000000000000, Source = [], Sections = [], Changes = []\<rparr>,
      \<lparr>Version = ''1.0.0'', ReleasedAt = 34790400000000000, Source = [], Sections = [], Changes = []\<rparr>])) 24) 7) @ ''w''" by blast
  with v8 have c8: "calculateAvgReleaseFreq 
     [\<lparr>Version = ''1.1.0'', ReleasedAt = 36000000000000000, Source = [], Sections = [], Changes = []\<rparr>,
      \<lparr>Version = ''1.0.0'', ReleasedAt = 34790400000000000, Source = [], Sections = [], Changes = []\<rparr>] = ''~2w''" by (simp only:)
  have h9: "2 \<le> length (collectValid [] 
     [\<lparr>Version = ''1.1.0'', ReleasedAt = 36000000000000000, Source = [], Sections = [], Changes = []\<rparr>,
      \<lparr>Version = ''1.0.0'', ReleasedAt = 28224000000000000, Source = [], Sections = [], Changes = []\<rparr>]) \<and> 4 * 7 * 24 * Hour \<le> avgInterval 
     [\<lparr>Version = ''1.1.0'', ReleasedAt = 36000000000000000, Source = [], Sections = [], Changes = []\<rparr>,
      \<lparr>Version = ''1.0.0'', ReleasedAt = 28224000000000000, Source = [], Sections = [], Changes = []\<rparr>]" by code_simp
  have v9: "''~'' @ showInt (quot (quot (Hours (avgInterval 
     [\<lparr>Version = ''1.1.0'', ReleasedAt = 36000000000000000, Source = [], Sections = [], Changes = []\<rparr>,
      \<lparr>Version = ''1.0.0'', ReleasedAt = 28224000000000000, Source = [], Sections = [], Changes = []\<rparr>])) 24) 30) @ ''mo'' = ''~3mo''" by code_simp
  from duration_buckets [of _ _ "
     [\<lparr>Version = ''1.1.0'', ReleasedAt = 36000000000000000, Source = [], Sections = [], Changes = []\<rparr>,
      \<lparr>Version = ''1.0.0'', ReleasedAt = 28224000000000000, Source = [], Sections = [], Changes = []\<rparr>]"] h9
  have "calculateAvgReleaseFreq 
     [\<lparr>Version = ''1.1.0'', ReleasedAt = 36000000000000000, Source = [], Sections = [], Changes = []\<rparr>,
      \<lparr>Version = ''1.0.0'', ReleasedAt = 28224000000000000, Source = [], Sections = [], Changes = []\<rparr>] = ''~'' @ showInt (quot (quot (Hours (avgInterval 
     [\<lparr>Version = ''1.1.0'', ReleasedAt = 36000000000000000, Source = [], Sections = [], Changes = []\<rparr>,
      \<lparr>Version = ''1.0.0'', ReleasedAt = 28224000000000000, Source = [], Sections = [], Changes = []\<rparr>])) 24) 30) @ ''mo''" by blast
  with v9 have c9: "calculateAvgReleaseFreq 
     [\<lparr>Version = ''1.1.0'', ReleasedAt = 36000000000000000, Source = [], Sections = [], Changes = []\<rparr>,
      \<lparr>Version = ''1.0.0'', ReleasedAt = 28224000000000000, Source = [], Sections = [], Changes = []\<rparr>] = ''~3mo''" by (simp only:)
  show ?thesis
    using h1 c1 h2 c2 h3 c3 h4 c4 h5 c5 h6 c6 h7 c7 h8 c8 h9 c9 by blast
qed

end
